theory Spec2Isabelle
  imports Main
begin

section \<open>Data model\<close>

text \<open>
  The plugin (\<^verbatim>\<open>src/fastlane.py\<close>) is a sequence of calls into the operating system
  (child processes, the file system, the process environment) and into the chat
  framework (reactions, streamed attachments). The platform is a parameter of the model:
  a record of functions over a world \<open>'w\<close> that the model never inspects, together
  with the two tables of the Python runtime that are not modelled (the codec of the
  locale and the case mapping of Unicode). Whatever Python raises is a value of
  \<open>error\<close>, returned as \<open>Inl\<close>.
\<close>

type_synonym path = string
type_synonym environ = "string \<rightharpoonup> string"

datatype fd = Stdout | Stderr

text \<open>
  What starting a child process can do: the start itself fails with an \<^verbatim>\<open>OSError\<close>
  (its errno is kept), or the child runs, writes to its two output streams in some
  order and exits with a status.
\<close>

datatype child = SpawnError nat | Exited int "(fd \<times> string) list"

datatype redirect = Inherit | PIPE | STDOUT

datatype error =
    CalledProcessError int "string list" "string option" "string option"
  | OSError nat
  | UnicodeDecodeError
  | KeyError string
  | TypeError

record completed_process =
  args :: "string list"
  returncode :: int
  stdout :: "string option"
  stderr :: "string option"

text \<open>
  \<open>decode\<close> is the strict decoder of the locale encoding, from the bytes a child wrote
  to text (\<open>None\<close> when the bytes are not valid in that encoding); \<open>unicode_lower\<close> is
  \<^verbatim>\<open>str.lower\<close> on text that is not plain ASCII.
\<close>

record 'w os =
  spawn :: "string list \<Rightarrow> path option \<Rightarrow> environ \<Rightarrow> 'w \<Rightarrow> child \<times> 'w"
  path_exists :: "path \<Rightarrow> 'w \<Rightarrow> bool"
  makedirs :: "path \<Rightarrow> 'w \<Rightarrow> nat option \<times> 'w"
  getcwd :: "'w \<Rightarrow> path"
  decode :: "string \<Rightarrow> string option"
  unicode_lower :: "string \<Rightarrow> string"

record message =
  msg_id :: nat
  frm :: string

datatype bot_event =
    AddReaction message string
  | RemoveReaction message string
  | StreamRequest string string string

text \<open>One entry of the record of child processes started so far.\<close>

record proc =
  p_args :: "string list"
  p_cwd :: "path option"
  p_env :: environ
  p_child :: child

text \<open>
  The state the plugin runs in: the world behind the operating system, \<^verbatim>\<open>os.environ\<close>,
  what the bot has been asked to show, and what was logged. The field \<open>spawned\<close> is a
  history of the child processes started, in order; the source has no such variable, it
  is there to state which commands were issued.
\<close>

record 'w state =
  world :: 'w
  os_environ :: environ
  spawned :: "proc list"
  bot :: "bot_event list"
  logged :: "string option list"

record config =
  REPOS_ROOT :: string
  S3_KEY :: string
  S3_SECRET :: string
  S3_BUCKET :: string
  S3_REGION :: string
  projects :: "(string \<times> string) list"

section \<open>Python library functions the plugin calls\<close>

subsection \<open>\<^verbatim>\<open>str.lower\<close>\<close>

text \<open>
  On plain ASCII text \<^verbatim>\<open>str.lower\<close> lowers the letters A to Z and nothing else; on
  any other text it follows the case mapping of Unicode, which may change the length:
  that table is the parameter \<open>unicode_lower\<close>.
\<close>

definition lower_char :: "char \<Rightarrow> char" where
  "lower_char c =
     (let n = (of_char c :: nat) in if 65 \<le> n \<and> n \<le> 90 then char_of (n + 32) else c)"

definition str_lower :: "'w os \<Rightarrow> string \<Rightarrow> string" where
  "str_lower os s =
     (if list_all (\<lambda>c. (of_char c :: nat) < 128) s then map lower_char s
      else unicode_lower os s)"

subsection \<open>\<^verbatim>\<open>posixpath\<close>: join, normpath, abspath\<close>

definition sep :: char where
  "sep = CHR ''/''"

definition pardir :: string where
  "pardir = ''..''"

text \<open>\<^verbatim>\<open>os.path.join(a, b)\<close> for two components.\<close>

definition path_join :: "path \<Rightarrow> path \<Rightarrow> path" where
  "path_join a b =
     (if b \<noteq> [] \<and> hd b = sep then b
      else if a = [] \<or> last a = sep then a @ b
      else a @ [sep] @ b)"

text \<open>\<^verbatim>\<open>str.split(c)\<close> and \<^verbatim>\<open>c.join(xs)\<close>.\<close>

fun split_on :: "char \<Rightarrow> string \<Rightarrow> string list" where
  "split_on c [] = [[]]"
| "split_on c (x # xs) =
     (if x = c then [] # split_on c xs
      else (case split_on c xs of [] \<Rightarrow> [[x]] | y # ys \<Rightarrow> (x # y) # ys))"

fun join_with :: "char \<Rightarrow> string list \<Rightarrow> string" where
  "join_with c [] = []"
| "join_with c [x] = x"
| "join_with c (x # y # ys) = x @ [c] @ join_with c (y # ys)"

text \<open>
  The loop body of \<^verbatim>\<open>posixpath.normpath\<close>: \<open>anchored\<close> says that the path starts with a
  slash, \<open>new_comps\<close> is the list built so far.
\<close>

definition norm_step :: "bool \<Rightarrow> string list \<Rightarrow> string \<Rightarrow> string list" where
  "norm_step anchored new_comps cmp =
     (if cmp = [] \<or> cmp = ''.'' then new_comps
      else if cmp \<noteq> pardir \<or> (\<not> anchored \<and> new_comps = [])
              \<or> (new_comps \<noteq> [] \<and> last new_comps = pardir)
           then new_comps @ [cmp]
      else if new_comps \<noteq> [] then butlast new_comps
      else new_comps)"

definition initial_slashes :: "path \<Rightarrow> nat" where
  "initial_slashes p =
     (if take 1 p = [sep] then
        (if take 2 p = [sep, sep] \<and> take 3 p \<noteq> [sep, sep, sep] then 2 else 1)
      else 0)"

definition normpath :: "path \<Rightarrow> path" where
  "normpath p =
     (if p = [] then ''.''
      else
        let n = initial_slashes p;
            comps = foldl (norm_step (n \<noteq> 0)) [] (split_on sep p);
            q = replicate n sep @ join_with sep comps
        in if q = [] then ''.'' else q)"

definition isabs :: "path \<Rightarrow> bool" where
  "isabs p = (take 1 p = [sep])"

definition abspath :: "path \<Rightarrow> path \<Rightarrow> path" where
  "abspath cwd p = normpath (if isabs p then p else path_join cwd p)"

subsection \<open>\<^verbatim>\<open>subprocess.run\<close>\<close>

text \<open>
  Text mode (\<^verbatim>\<open>universal_newlines=True\<close>) turns \<^verbatim>\<open>\r\n\<close> and a lone \<^verbatim>\<open>\r\<close> into
  \<^verbatim>\<open>\n\<close>.
\<close>

fun translate_newlines :: "string \<Rightarrow> string" where
  "translate_newlines [] = []"
| "translate_newlines (x # xs) =
     (if x = CHR 0x0D then
        (case xs of
           [] \<Rightarrow> [CHR 0x0A]
         | y # ys \<Rightarrow> if y = CHR 0x0A then CHR 0x0A # translate_newlines ys
                     else CHR 0x0A # translate_newlines xs)
      else x # translate_newlines xs)"

text \<open>
  What a pipe collects from the writes of the child: with \<^verbatim>\<open>stderr=STDOUT\<close> the two
  streams share the pipe of standard output, so every write arrives there, in order.
\<close>

definition to_stdout_pipe :: "redirect \<Rightarrow> fd \<times> string \<Rightarrow> bool" where
  "to_stdout_pipe err w = (fst w = Stdout \<or> err = STDOUT)"

text \<open>
  Reading a pipe to its end: in text mode the bytes are decoded as a whole, which raises
  \<^verbatim>\<open>UnicodeDecodeError\<close> when they are not valid, and then the newlines are translated.
\<close>

definition read_pipe :: "'w os \<Rightarrow> bool \<Rightarrow> (fd \<times> string) list \<Rightarrow> error + string" where
  "read_pipe os text ws =
     (let raw = concat (map snd ws)
      in if text then
           (case decode os raw of
              None \<Rightarrow> Inl UnicodeDecodeError
            | Some t \<Rightarrow> Inr (translate_newlines t))
         else Inr raw)"

definition read_stream ::
  "'w os \<Rightarrow> bool \<Rightarrow> bool \<Rightarrow> (fd \<times> string) list \<Rightarrow> error + string option" where
  "read_stream os text piped ws =
     (if piped then
        (case read_pipe os text ws of Inl e \<Rightarrow> Inl e | Inr t \<Rightarrow> Inr (Some t))
      else Inr None)"

text \<open>\<^verbatim>\<open>Popen.communicate\<close>: standard output is read and decoded first, then standard error.\<close>

definition communicate ::
  "'w os \<Rightarrow> redirect \<Rightarrow> redirect \<Rightarrow> bool \<Rightarrow> (fd \<times> string) list
     \<Rightarrow> error + (string option \<times> string option)" where
  "communicate os out err text ws =
     (case read_stream os text (out = PIPE) (filter (to_stdout_pipe err) ws) of
        Inl e \<Rightarrow> Inl e
      | Inr so \<Rightarrow>
          (case read_stream os text (err = PIPE) (filter (\<lambda>w. fst w = Stderr) ws) of
             Inl e \<Rightarrow> Inl e
           | Inr se \<Rightarrow> Inr (so, se)))"

text \<open>
  \<^verbatim>\<open>subprocess.run(args, stdout=out, stderr=err, universal_newlines=text, check=check,
  cwd=cwd)\<close>. The child inherits \<^verbatim>\<open>os.environ\<close>. The output is read before the exit
  status is looked at. The call is entered in \<open>spawned\<close>.
\<close>

definition subprocess_run ::
  "'w os \<Rightarrow> string list \<Rightarrow> redirect \<Rightarrow> redirect \<Rightarrow> bool \<Rightarrow> bool \<Rightarrow> path option
     \<Rightarrow> 'w state \<Rightarrow> (error + completed_process) \<times> 'w state" where
  "subprocess_run os argv out err text check cwd s =
     (let (c, w) = spawn os argv cwd (os_environ s) (world s);
          s' = s\<lparr>world := w,
                 spawned := spawned s @ [\<lparr>p_args = argv, p_cwd = cwd, p_env = os_environ s, p_child = c\<rparr>]\<rparr>
      in case c of
           SpawnError n \<Rightarrow> (Inl (OSError n), s')
         | Exited rc ws \<Rightarrow>
             (case communicate os out err text ws of
                Inl e \<Rightarrow> (Inl e, s')
              | Inr (so, se) \<Rightarrow>
                  if check \<and> rc \<noteq> 0 then (Inl (CalledProcessError rc argv so se), s')
                  else (Inr \<lparr>args = argv, returncode = rc, stdout = so, stderr = se\<rparr>, s')))"

section \<open>The plugin\<close>

subsection \<open>Process Executor\<close>

definition run_subprocess ::
  "'w os \<Rightarrow> string list \<Rightarrow> path option \<Rightarrow> 'w state \<Rightarrow> (error + completed_process) \<times> 'w state" where
  "run_subprocess os argv cwd s = subprocess_run os argv PIPE STDOUT True True cwd s"

subsection \<open>Activation: environment and clones\<close>

text \<open>
  \<^verbatim>\<open>setup_environments\<close>: a copy of \<^verbatim>\<open>os.environ\<close> gets the four configured values
  and is written back with \<^verbatim>\<open>os.environ.update\<close>.
\<close>

definition setup_environments :: "config \<Rightarrow> 'w state \<Rightarrow> 'w state" where
  "setup_environments cfg s =
     (let environments = os_environ s;
          environments = environments(''S3_KEY'' \<mapsto> S3_KEY cfg);
          environments = environments(''S3_SECRET'' \<mapsto> S3_SECRET cfg);
          environments = environments(''S3_BUCKET'' \<mapsto> S3_BUCKET cfg);
          environments = environments(''S3_REGION'' \<mapsto> S3_REGION cfg)
      in s\<lparr>os_environ := os_environ s ++ environments\<rparr>)"

definition EEXIST :: nat where
  "EEXIST = 17"

definition clone_argv :: "string \<Rightarrow> string \<Rightarrow> string list" where
  "clone_argv url project_name = [''git'', ''clone'', url, project_name]"

text \<open>
  The loop of \<^verbatim>\<open>setup_repos\<close> over the keys of \<^verbatim>\<open>config['projects']\<close>. The dictionary
  is the association list \<open>projects cfg\<close> (a Python dictionary has each key once), and
  \<^verbatim>\<open>config['projects'][project_name]\<close> is \<open>map_of\<close>.
\<close>

fun clone_missing ::
  "'w os \<Rightarrow> config \<Rightarrow> string list \<Rightarrow> 'w state \<Rightarrow> (error + unit) \<times> 'w state" where
  "clone_missing os cfg [] s = (Inr (), s)"
| "clone_missing os cfg (project_name # rest) s =
     (if \<not> path_exists os (path_join (REPOS_ROOT cfg) project_name) (world s) then
        (case map_of (projects cfg) project_name of
           None \<Rightarrow> (Inl (KeyError project_name), s)
         | Some url \<Rightarrow>
             (case run_subprocess os (clone_argv url project_name) (Some (REPOS_ROOT cfg)) s of
                (Inl e, s') \<Rightarrow> (Inl e, s')
              | (Inr _, s') \<Rightarrow> clone_missing os cfg rest s'))
      else clone_missing os cfg rest s)"

definition setup_repos :: "'w os \<Rightarrow> config \<Rightarrow> 'w state \<Rightarrow> (error + unit) \<times> 'w state" where
  "setup_repos os cfg s =
     (let (exc, w) = makedirs os (REPOS_ROOT cfg) (world s);
          s' = s\<lparr>world := w\<rparr>
      in case exc of
           None \<Rightarrow> clone_missing os cfg (map fst (projects cfg)) s'
         | Some errno \<Rightarrow>
             if errno \<noteq> EEXIST then (Inl (OSError errno), s')
             else clone_missing os cfg (map fst (projects cfg)) s')"

subsection \<open>The steps of a flow\<close>

definition get_project_root :: "config \<Rightarrow> string \<Rightarrow> string" where
  "get_project_root cfg project_name = REPOS_ROOT cfg @ project_name"

definition install_bundle ::
  "'w os \<Rightarrow> path \<Rightarrow> 'w state \<Rightarrow> (error + completed_process) \<times> 'w state" where
  "install_bundle os project_root s =
     run_subprocess os [''bundle'', ''install''] (Some project_root) s"

definition build_fastlane ::
  "'w os \<Rightarrow> path \<Rightarrow> 'w state \<Rightarrow> (error + completed_process) \<times> 'w state" where
  "build_fastlane os project_root s =
     run_subprocess os [''fastlane'', ''deploy''] (Some project_root) s"

definition check_fastlane_env ::
  "'w os \<Rightarrow> path \<Rightarrow> 'w state \<Rightarrow> (error + completed_process) \<times> 'w state" where
  "check_fastlane_env os project_root s =
     run_subprocess os [''fastlane'', ''env''] (Some project_root) s"

definition find_argv :: "path \<Rightarrow> string list" where
  "find_argv project_root =
     [''find'', project_root, ''-maxdepth'', ''2'', ''-name'', ''fastlane'', ''-type'', ''d'',
      ''-print'', ''-quit'']"

text \<open>
  \<^verbatim>\<open>find_fastlane_directory\<close>: the output of \<^verbatim>\<open>find\<close> is joined with \<^verbatim>\<open>os.pardir\<close> as
  it is, with the newline that ends it, and made absolute.
\<close>

definition find_fastlane_directory ::
  "'w os \<Rightarrow> path \<Rightarrow> 'w state \<Rightarrow> (error + path) \<times> 'w state" where
  "find_fastlane_directory os project_root s =
     (case run_subprocess os (find_argv project_root) (Some project_root) s of
        (Inl e, s') \<Rightarrow> (Inl e, s')
      | (Inr cp, s') \<Rightarrow>
          (case stdout cp of
             None \<Rightarrow> (Inl TypeError, s')
           | Some fastlane_directory \<Rightarrow>
               (Inr (abspath (getcwd os (world s')) (path_join fastlane_directory pardir)), s')))"

text \<open>The loop of \<^verbatim>\<open>fetch_branch_from_origin\<close> over its list of argument vectors.\<close>

fun git_each ::
  "'w os \<Rightarrow> string list list \<Rightarrow> path \<Rightarrow> 'w state \<Rightarrow> (error + unit) \<times> 'w state" where
  "git_each os [] project_root s = (Inr (), s)"
| "git_each os (argv # rest) project_root s =
     (case run_subprocess os (''git'' # argv) (Some project_root) s of
        (Inl e, s') \<Rightarrow> (Inl e, s')
      | (Inr _, s') \<Rightarrow> git_each os rest project_root s')"

definition fetch_branch_from_origin ::
  "'w os \<Rightarrow> path \<Rightarrow> string \<Rightarrow> 'w state \<Rightarrow> (error + unit) \<times> 'w state" where
  "fetch_branch_from_origin os project_root branch_name s =
     git_each os
       [[''fetch'', ''-p''],
        [''checkout'', ''-B'', branch_name, ''origin/'' @ branch_name, ''-f'']]
       project_root s"

subsection \<open>The chat framework\<close>

definition add_reaction :: "message \<Rightarrow> string \<Rightarrow> 'w state \<Rightarrow> 'w state" where
  "add_reaction msg name s = s\<lparr>bot := bot s @ [AddReaction msg name]\<rparr>"

definition remove_reaction :: "message \<Rightarrow> string \<Rightarrow> 'w state \<Rightarrow> 'w state" where
  "remove_reaction msg name s = s\<lparr>bot := bot s @ [RemoveReaction msg name]\<rparr>"

definition send_stream_request ::
  "string \<Rightarrow> string \<Rightarrow> string \<Rightarrow> 'w state \<Rightarrow> bot_event \<times> 'w state" where
  "send_stream_request user content name s =
     (StreamRequest user content name, s\<lparr>bot := bot s @ [StreamRequest user content name]\<rparr>)"

definition log_exception :: "string option \<Rightarrow> 'w state \<Rightarrow> 'w state" where
  "log_exception text s = s\<lparr>logged := logged s @ [text]\<rparr>"

text \<open>
  \<^verbatim>\<open>io.BytesIO(str.encode(text))\<close>: the characters of this model are bytes already;
  \<^verbatim>\<open>str.encode(None)\<close> raises \<^verbatim>\<open>TypeError\<close>.
\<close>

definition str_encode :: "string option \<Rightarrow> error + string" where
  "str_encode text = (case text of None \<Rightarrow> Inl TypeError | Some t \<Rightarrow> Inr t)"

subsection \<open>Release Runner: the two flows\<close>

text \<open>The lines after the last step in the \<^verbatim>\<open>try\<close> block of either flow.\<close>

definition report_success ::
  "message \<Rightarrow> completed_process \<Rightarrow> string \<Rightarrow> 'w state \<Rightarrow> (error + bot_event option) \<times> 'w state" where
  "report_success msg completed_process name s =
     (let s1 = remove_reaction msg ''hourglass'' s;
          s2 = add_reaction msg ''white_check_mark'' s1
      in case str_encode (stdout completed_process) of
           Inl e \<Rightarrow> (Inl e, s2)
         | Inr content \<Rightarrow>
             (let (r, s3) = send_stream_request (frm msg) content name s2 in (Inr (Some r), s3)))"

text \<open>The \<^verbatim>\<open>except subprocess.CalledProcessError as e\<close> block of either flow.\<close>

definition report_failure ::
  "message \<Rightarrow> string option \<Rightarrow> string \<Rightarrow> 'w state \<Rightarrow> (error + bot_event option) \<times> 'w state" where
  "report_failure msg output name s =
     (let s1 = remove_reaction msg ''hourglass'' s;
          s2 = add_reaction msg ''x'' s1;
          s3 = log_exception output s2
      in case str_encode output of
           Inl e \<Rightarrow> (Inl e, s3)
         | Inr content \<Rightarrow>
             (let (r, s4) = send_stream_request (frm msg) content name s3 in (Inr None, s4)))"

text \<open>The \<^verbatim>\<open>try\<close> block of \<^verbatim>\<open>fastlane_env\<close>.\<close>

definition fastlane_env_try ::
  "'w os \<Rightarrow> config \<Rightarrow> message \<Rightarrow> string \<Rightarrow> string \<Rightarrow> 'w state
     \<Rightarrow> (error + bot_event option) \<times> 'w state" where
  "fastlane_env_try os cfg msg project_name branch_name s =
     (let project_root = get_project_root cfg project_name
      in case fetch_branch_from_origin os project_root branch_name s of
           (Inl e, s1) \<Rightarrow> (Inl e, s1)
         | (Inr _, s1) \<Rightarrow>
        (case find_fastlane_directory os project_root s1 of
           (Inl e, s2) \<Rightarrow> (Inl e, s2)
         | (Inr fastlane_parent_directory, s2) \<Rightarrow>
        (case install_bundle os fastlane_parent_directory s2 of
           (Inl e, s3) \<Rightarrow> (Inl e, s3)
         | (Inr _, s3) \<Rightarrow>
        (case check_fastlane_env os fastlane_parent_directory s3 of
           (Inl e, s4) \<Rightarrow> (Inl e, s4)
         | (Inr completed_process, s4) \<Rightarrow>
             report_success msg completed_process ''response-env.txt'' s4))))"

definition fastlane_env ::
  "'w os \<Rightarrow> config \<Rightarrow> message \<Rightarrow> string \<Rightarrow> string \<Rightarrow> 'w state
     \<Rightarrow> (error + bot_event option) \<times> 'w state" where
  "fastlane_env os cfg msg project_name branch_name s =
     (case fastlane_env_try os cfg msg project_name branch_name (add_reaction msg ''hourglass'' s) of
        (Inr r, s') \<Rightarrow> (Inr r, s')
      | (Inl e, s') \<Rightarrow>
          (case e of
             CalledProcessError rc cmd output err \<Rightarrow> report_failure msg output ''error-env.txt'' s'
           | OSError n \<Rightarrow> (Inl e, s')
           | UnicodeDecodeError \<Rightarrow> (Inl e, s')
           | KeyError k \<Rightarrow> (Inl e, s')
           | TypeError \<Rightarrow> (Inl e, s')))"

text \<open>The \<^verbatim>\<open>try\<close> block of \<^verbatim>\<open>fastlane\<close>.\<close>

definition fastlane_try ::
  "'w os \<Rightarrow> config \<Rightarrow> message \<Rightarrow> string \<Rightarrow> string \<Rightarrow> string \<Rightarrow> 'w state
     \<Rightarrow> (error + bot_event option) \<times> 'w state" where
  "fastlane_try os cfg msg project_name environment branch_name s =
     (let project_root = get_project_root cfg project_name
      in case fetch_branch_from_origin os project_root branch_name s of
           (Inl e, s1) \<Rightarrow> (Inl e, s1)
         | (Inr _, s1) \<Rightarrow>
        (case find_fastlane_directory os project_root s1 of
           (Inl e, s2) \<Rightarrow> (Inl e, s2)
         | (Inr fastlane_parent_directory, s2) \<Rightarrow>
        (case install_bundle os fastlane_parent_directory s2 of
           (Inl e, s3) \<Rightarrow> (Inl e, s3)
         | (Inr _, s3) \<Rightarrow>
        (case build_fastlane os fastlane_parent_directory s3 of
           (Inl e, s4) \<Rightarrow> (Inl e, s4)
         | (Inr completed_process, s4) \<Rightarrow>
             report_success msg completed_process (''response-'' @ environment @ ''.txt'') s4))))"

definition fastlane ::
  "'w os \<Rightarrow> config \<Rightarrow> message \<Rightarrow> string \<Rightarrow> string \<Rightarrow> string \<Rightarrow> 'w state
     \<Rightarrow> (error + bot_event option) \<times> 'w state" where
  "fastlane os cfg msg project_name environment branch_name s =
     (let s0 = s\<lparr>os_environ := (os_environ s)(''ENV'' \<mapsto> environment)\<rparr>
      in case fastlane_try os cfg msg project_name environment branch_name
                (add_reaction msg ''hourglass'' s0) of
           (Inr r, s') \<Rightarrow> (Inr r, s')
         | (Inl e, s') \<Rightarrow>
             (case e of
                CalledProcessError rc cmd output err \<Rightarrow>
                  report_failure msg output (''error-'' @ environment @ ''.txt'') s'
              | OSError n \<Rightarrow> (Inl e, s')
              | UnicodeDecodeError \<Rightarrow> (Inl e, s')
              | KeyError k \<Rightarrow> (Inl e, s')
              | TypeError \<Rightarrow> (Inl e, s')))"

text \<open>
  The chat commands: the decorators parse the arguments, \<^verbatim>\<open>--project-name\<close> with
  \<^verbatim>\<open>type=str.lower\<close>, the others with \<^verbatim>\<open>type=str\<close>, and call the method.
\<close>

definition cmd_fastlane_env ::
  "'w os \<Rightarrow> config \<Rightarrow> message \<Rightarrow> string \<Rightarrow> string \<Rightarrow> 'w state
     \<Rightarrow> (error + bot_event option) \<times> 'w state" where
  "cmd_fastlane_env os cfg msg project_name branch_name s =
     fastlane_env os cfg msg (str_lower os project_name) branch_name s"

definition cmd_fastlane ::
  "'w os \<Rightarrow> config \<Rightarrow> message \<Rightarrow> string \<Rightarrow> string \<Rightarrow> string \<Rightarrow> 'w state
     \<Rightarrow> (error + bot_event option) \<times> 'w state" where
  "cmd_fastlane os cfg msg project_name environment branch_name s =
     fastlane os cfg msg (str_lower os project_name) environment branch_name s"

section \<open>Observations on a run\<close>

text \<open>The child processes started between two states of a run.\<close>

definition new_procs :: "'w state \<Rightarrow> 'w state \<Rightarrow> proc list" where
  "new_procs s s' = drop (length (spawned s)) (spawned s')"

text \<open>The bot events emitted between two states of a run.\<close>

definition new_events :: "'w state \<Rightarrow> 'w state \<Rightarrow> bot_event list" where
  "new_events s s' = drop (length (bot s)) (bot s')"

text \<open>
  The text of all writes of a child, of both streams, in the order written: decoded
  with the codec of the locale, then with the newlines translated. \<open>None\<close> when the bytes
  do not decode.
\<close>

definition decoded :: "'w os \<Rightarrow> (fd \<times> string) list \<Rightarrow> string option" where
  "decoded os ws = map_option translate_newlines (decode os (concat (map snd ws)))"

text \<open>
  What a call made with the options of \<^verbatim>\<open>run_subprocess\<close> raises for the answer \<open>c\<close> of the
  operating system: \<^verbatim>\<open>OSError\<close> when the child could not be started,
  \<^verbatim>\<open>UnicodeDecodeError\<close> when its output does not decode, \<^verbatim>\<open>CalledProcessError\<close> with
  the status, the arguments and the text when it exited with a non-zero status, nothing
  otherwise.
\<close>

definition child_error :: "'w os \<Rightarrow> string list \<Rightarrow> child \<Rightarrow> error option" where
  "child_error os argv c =
     (case c of
        SpawnError n \<Rightarrow> Some (OSError n)
      | Exited rc ws \<Rightarrow>
          (case decoded os ws of
             None \<Rightarrow> Some UnicodeDecodeError
           | Some t \<Rightarrow>
               if rc \<noteq> 0 then Some (CalledProcessError rc argv (Some t) None) else None))"

definition child_text :: "'w os \<Rightarrow> child \<Rightarrow> string option" where
  "child_text os c = (case c of SpawnError n \<Rightarrow> None | Exited rc ws \<Rightarrow> decoded os ws)"

definition raised :: "'w os \<Rightarrow> proc \<Rightarrow> error option" where
  "raised os p = child_error os (p_args p) (p_child p)"

definition proc_output :: "'w os \<Rightarrow> proc \<Rightarrow> string option" where
  "proc_output os p = child_text os (p_child p)"

definition succeeded :: "'w os \<Rightarrow> proc \<Rightarrow> bool" where
  "succeeded os p \<longleftrightarrow> raised os p = None"

definition command_failed :: "'w os \<Rightarrow> proc \<Rightarrow> bool" where
  "command_failed os p \<longleftrightarrow>
     (case raised os p of
        None \<Rightarrow> False
      | Some e \<Rightarrow> (case e of CalledProcessError rc cmd out err \<Rightarrow> True | _ \<Rightarrow> False))"

definition not_started :: "proc \<Rightarrow> bool" where
  "not_started p = (case p_child p of SpawnError n \<Rightarrow> True | Exited rc ws \<Rightarrow> False)"

text \<open>
  A history is tied to the operating system by running it again: \<open>genuine os w ps\<close> says
  that each child of \<open>ps\<close> is what \<open>spawn os\<close> answers for its arguments, directory and
  environment, the first in the world \<open>w\<close> and each next one in the world the one before
  left; \<open>replay os w ps\<close> is the world the last one leaves.
\<close>

fun replay :: "'w os \<Rightarrow> 'w \<Rightarrow> proc list \<Rightarrow> 'w" where
  "replay os w [] = w"
| "replay os w (p # ps) = replay os (snd (spawn os (p_args p) (p_cwd p) (p_env p) w)) ps"

fun genuine :: "'w os \<Rightarrow> 'w \<Rightarrow> proc list \<Rightarrow> bool" where
  "genuine os w [] = True"
| "genuine os w (p # ps) =
     (p_child p = fst (spawn os (p_args p) (p_cwd p) (p_env p) w)
      \<and> genuine os (snd (spawn os (p_args p) (p_cwd p) (p_env p) w)) ps)"

text \<open>
  Two notions for the proofs. \<open>traced os s s' ps\<close>: from \<open>s\<close> to \<open>s'\<close> exactly the children
  \<open>ps\<close> were started, each with the environment of \<open>s\<close>, they are genuine, and nothing
  else of the state but the world changed. \<open>follows os ps r\<close>: the result \<open>r\<close> is the one
  a sequence of \<^verbatim>\<open>run_subprocess\<close> calls gives that stops at the first child that raises.
\<close>

definition traced :: "'w os \<Rightarrow> 'w state \<Rightarrow> 'w state \<Rightarrow> proc list \<Rightarrow> bool" where
  "traced os s s' ps \<longleftrightarrow>
     spawned s' = spawned s @ ps \<and> os_environ s' = os_environ s \<and> bot s' = bot s
     \<and> logged s' = logged s \<and> list_all (\<lambda>p. p_env p = os_environ s) ps
     \<and> genuine os (world s) ps \<and> world s' = replay os (world s) ps"

definition follows :: "'w os \<Rightarrow> proc list \<Rightarrow> error + 'a \<Rightarrow> bool" where
  "follows os ps r \<longleftrightarrow>
     (case r of
        Inr v \<Rightarrow> list_all (succeeded os) ps
      | Inl e \<Rightarrow> ps \<noteq> [] \<and> list_all (succeeded os) (butlast ps) \<and> raised os (last ps) = Some e)"

text \<open>
  The commands of a flow, in order, for a project root, a branch and the final action
  of the release tool; and the directories they run in: the first three in the project
  root, the last two in the directory \<open>located\<close> from the output of the third.
\<close>

definition flow_commands :: "path \<Rightarrow> string \<Rightarrow> string list \<Rightarrow> string list list" where
  "flow_commands root branch action =
     [[''git'', ''fetch'', ''-p''],
      [''git'', ''checkout'', ''-B'', branch, ''origin/'' @ branch, ''-f''],
      [''find'', root, ''-maxdepth'', ''2'', ''-name'', ''fastlane'', ''-type'', ''d'',
       ''-print'', ''-quit''],
      [''bundle'', ''install''],
      action]"

definition located :: "'w os \<Rightarrow> 'w \<Rightarrow> proc list \<Rightarrow> path" where
  "located os w ps =
     abspath (getcwd os (replay os w (take 3 ps)))
       (path_join
          (case drop 2 ps of
             [] \<Rightarrow> []
           | p # rest \<Rightarrow> (case proc_output os p of None \<Rightarrow> [] | Some t \<Rightarrow> t))
          ''..'')"

definition flow_cwds :: "path \<Rightarrow> path \<Rightarrow> path option list" where
  "flow_cwds root dir = [Some root, Some root, Some root, Some dir, Some dir]"

text \<open>
  \<open>flow_history os env root branch action w ps w'\<close>: the children \<open>ps\<close> are a genuine run,
  from the world \<open>w\<close> to the world \<open>w'\<close> and in the environment \<open>env\<close>, of an initial part
  of the commands of the flow, each in its directory, and all but the last succeeded.
\<close>

definition flow_history ::
  "'w os \<Rightarrow> environ \<Rightarrow> path \<Rightarrow> string \<Rightarrow> string list \<Rightarrow> 'w \<Rightarrow> proc list \<Rightarrow> 'w \<Rightarrow> bool" where
  "flow_history os env root branch action w ps w' \<longleftrightarrow>
     ps \<noteq> [] \<and> genuine os w ps \<and> w' = replay os w ps
     \<and> list_all (\<lambda>p. p_env p = env) ps
     \<and> map p_args ps = take (length ps) (flow_commands root branch action)
     \<and> map p_cwd ps = take (length ps) (flow_cwds root (located os w ps))
     \<and> list_all (succeeded os) (butlast ps)"

text \<open>
  The two \<^verbatim>\<open>try\<close> blocks differ in the last command and in the name of the attachment,
  and the two \<^verbatim>\<open>except\<close> blocks in the name only. For the proofs both are instances of
  one block each, \<open>steps_then_report\<close> and \<open>guarded\<close> (see \<open>fastlane_env_eq\<close> and
  \<open>fastlane_eq\<close>).
\<close>

definition steps_then_report ::
  "'w os \<Rightarrow> config \<Rightarrow> message \<Rightarrow> string \<Rightarrow> string \<Rightarrow> string list \<Rightarrow> string \<Rightarrow> 'w state
     \<Rightarrow> (error + bot_event option) \<times> 'w state" where
  "steps_then_report os cfg msg project_name branch_name action name s =
     (let project_root = get_project_root cfg project_name
      in case fetch_branch_from_origin os project_root branch_name s of
           (Inl e, s1) \<Rightarrow> (Inl e, s1)
         | (Inr _, s1) \<Rightarrow>
        (case find_fastlane_directory os project_root s1 of
           (Inl e, s2) \<Rightarrow> (Inl e, s2)
         | (Inr fastlane_parent_directory, s2) \<Rightarrow>
        (case run_subprocess os [''bundle'', ''install''] (Some fastlane_parent_directory) s2 of
           (Inl e, s3) \<Rightarrow> (Inl e, s3)
         | (Inr _, s3) \<Rightarrow>
        (case run_subprocess os action (Some fastlane_parent_directory) s3 of
           (Inl e, s4) \<Rightarrow> (Inl e, s4)
         | (Inr completed_process, s4) \<Rightarrow> report_success msg completed_process name s4))))"

definition guarded ::
  "message \<Rightarrow> string \<Rightarrow> (error + bot_event option) \<times> 'w state
     \<Rightarrow> (error + bot_event option) \<times> 'w state" where
  "guarded msg name rs =
     (case rs of
        (Inr r, s') \<Rightarrow> (Inr r, s')
      | (Inl e, s') \<Rightarrow>
          (case e of
             CalledProcessError rc cmd output err \<Rightarrow> report_failure msg output name s'
           | OSError n \<Rightarrow> (Inl e, s')
           | UnicodeDecodeError \<Rightarrow> (Inl e, s')
           | KeyError k \<Rightarrow> (Inl e, s')
           | TypeError \<Rightarrow> (Inl e, s')))"

text \<open>
  Absolute paths written as their components: \<open>abs_path_of [a, b]\<close> is \<^verbatim>\<open>/a/b\<close>. A
  plain component is a name: not empty, without a slash, neither \<^verbatim>\<open>.\<close> nor \<^verbatim>\<open>..\<close>.
\<close>

definition plain_component :: "string \<Rightarrow> bool" where
  "plain_component c \<longleftrightarrow> c \<noteq> [] \<and> sep \<notin> set c \<and> c \<noteq> ''.'' \<and> c \<noteq> pardir"

definition abs_path_of :: "string list \<Rightarrow> path" where
  "abs_path_of cs = sep # join_with sep cs"

text \<open>
  The clone commands \<^verbatim>\<open>setup_repos\<close> has to issue in a world: one for each project, in
  the order of the configuration, whose directory does not exist.
\<close>

definition clone_of :: "config \<Rightarrow> string \<Rightarrow> string list" where
  "clone_of cfg project_name =
     (case map_of (projects cfg) project_name of
        None \<Rightarrow> []
      | Some url \<Rightarrow> [''git'', ''clone'', url, project_name])"

definition missing_clones :: "'w os \<Rightarrow> config \<Rightarrow> 'w \<Rightarrow> string list list" where
  "missing_clones os cfg w =
     map (clone_of cfg)
       (filter (\<lambda>project_name. \<not> path_exists os (path_join (REPOS_ROOT cfg) project_name) w)
          (map fst (projects cfg)))"

text \<open>
  What is assumed of \<^verbatim>\<open>git clone\<close> and \<^verbatim>\<open>os.makedirs\<close> where a claim depends on it: a
  clone that exits with status zero creates the directory of its project and changes
  the existence of no other project directory, and \<^verbatim>\<open>makedirs\<close> of the repository root
  changes the existence of no project directory.
\<close>

definition clone_creates :: "'w os \<Rightarrow> config \<Rightarrow> bool" where
  "clone_creates os cfg \<longleftrightarrow>
     (\<forall>n\<in>set (map fst (projects cfg)). \<forall>url env w ws w'.
        spawn os [''git'', ''clone'', url, n] (Some (REPOS_ROOT cfg)) env w = (Exited 0 ws, w') \<longrightarrow>
        (\<forall>m\<in>set (map fst (projects cfg)).
           path_exists os (path_join (REPOS_ROOT cfg) m) w'
             = (path_exists os (path_join (REPOS_ROOT cfg) m) w
                \<or> path_join (REPOS_ROOT cfg) m = path_join (REPOS_ROOT cfg) n)))
     \<and> (\<forall>w e w'. makedirs os (REPOS_ROOT cfg) w = (e, w') \<longrightarrow>
        (\<forall>m\<in>set (map fst (projects cfg)).
           path_exists os (path_join (REPOS_ROOT cfg) m) w'
             = path_exists os (path_join (REPOS_ROOT cfg) m) w))"

section \<open>A sample platform\<close>

text \<open>
  A small platform to run the plugin on concrete inputs. Its world is the list of the
  directories that exist and whether the network is up. Bytes decode unless the byte
  \<^verbatim>\<open>FF\<close> is among them (it is valid nowhere in UTF-8). A child whose working directory
  does not exist cannot be started; \<^verbatim>\<open>git clone\<close> creates the clone with a directory
  \<^verbatim>\<open>ios/fastlane\<close> in it, and fails for one address; \<^verbatim>\<open>git fetch\<close> needs the network;
  \<^verbatim>\<open>git checkout\<close> fails for the branch \<^verbatim>\<open>nobranch\<close>; \<^verbatim>\<open>fastlane env\<close> prints the
  variable \<^verbatim>\<open>ENV\<close> it was started with; \<^verbatim>\<open>fastlane deploy\<close> knows one environment,
  \<^verbatim>\<open>staging\<close>; in the project \<^verbatim>\<open>legacy\<close> the release tool writes a byte that does not
  decode.

  \<^verbatim>\<open>find\<close> follows find(1) for the expression the plugin uses: the start point is
  visited first, at depth 0, then the directories below it; the first directory of depth
  at most 2 whose base name is \<^verbatim>\<open>fastlane\<close> is printed, as the start point followed by
  the path below it, and the search stops. Nothing is printed when there is none.
\<close>

record sample_world =
  dirs :: "path list"
  online :: bool

definition ENOENT :: nat where
  "ENOENT = 2"

definition nl :: string where
  "nl = [CHR 0x0A]"

definition basename :: "path \<Rightarrow> string" where
  "basename p = last (split_on sep p)"

text \<open>\<open>within_two root d\<close>: the path \<open>d\<close> is one or two levels below \<open>root\<close>.\<close>

definition within_two :: "path \<Rightarrow> path \<Rightarrow> bool" where
  "within_two root d \<longleftrightarrow>
     take (Suc (length root)) d = root @ [sep]
     \<and> length (split_on sep (drop (Suc (length root)) d)) \<le> 2
     \<and> list_all (\<lambda>c. c \<noteq> []) (split_on sep (drop (Suc (length root)) d))"

text \<open>The subdirectories named after the release tool within two levels of a root.\<close>

definition tool_subdirs :: "path \<Rightarrow> sample_world \<Rightarrow> path list" where
  "tool_subdirs root w =
     filter (\<lambda>d. basename d = ''fastlane'') (filter (within_two root) (dirs w))"

definition sample_find :: "path \<Rightarrow> sample_world \<Rightarrow> (fd \<times> string) list" where
  "sample_find root w =
     (case filter (\<lambda>d. basename d = ''fastlane'') (root # filter (within_two root) (dirs w)) of
        [] \<Rightarrow> []
      | d # rest \<Rightarrow> [(Stdout, d @ nl)])"

definition sample_spawn ::
  "string list \<Rightarrow> path option \<Rightarrow> environ \<Rightarrow> sample_world \<Rightarrow> child \<times> sample_world" where
  "sample_spawn argv cwd env w =
     (case cwd of
        None \<Rightarrow> (SpawnError ENOENT, w)
      | Some d \<Rightarrow>
          if d \<notin> set (dirs w) then (SpawnError ENOENT, w)
          else if length argv = 4 \<and> take 2 argv = [''git'', ''clone''] then
            (if argv ! 2 = ''https://example.org/gone.git''
             then (Exited 128 [(Stderr, ''fatal: repository not found'' @ nl)], w)
             else (Exited 0 [(Stderr, ''Cloning into '' @ argv ! 3 @ nl)],
                   w\<lparr>dirs := dirs w @
                        [path_join d (argv ! 3),
                         path_join (path_join d (argv ! 3)) ''ios'',
                         path_join (path_join (path_join d (argv ! 3)) ''ios'') ''fastlane'']\<rparr>))
          else if argv = [''git'', ''fetch'', ''-p''] then
            (if online w then (Exited 0 [], w)
             else (Exited 128 [(Stderr, ''fatal: unable to access origin'' @ nl)], w))
          else if length argv = 6 \<and> take 3 argv = [''git'', ''checkout'', ''-B''] then
            (if argv ! 3 = ''nobranch''
             then (Exited 128 [(Stderr, ''fatal: not a commit'' @ nl)], w)
             else (Exited 0 [(Stderr, ''Reset branch'' @ nl), (Stdout, ''up to date'' @ nl)], w))
          else if length argv = 10 \<and> take 1 argv = [''find''] then
            (if argv ! 1 \<in> set (dirs w) then (Exited 0 (sample_find (argv ! 1) w), w)
             else (Exited 1 [(Stderr, ''find: No such file or directory'' @ nl)], w))
          else if argv = [''bundle'', ''install''] then
            (Exited 0 [(Stdout, ''Bundle complete'' @ nl)], w)
          else if argv = [''fastlane'', ''env''] then
            (if d = ''/srv/repos/legacy/ios'' then (Exited 0 [(Stdout, [CHR 0xFF])], w)
             else
               (Exited 0 [(Stderr, ''checking'' @ nl),
                          (Stdout, ''ENV='' @ (case env ''ENV'' of None \<Rightarrow> [] | Some v \<Rightarrow> v) @ nl)],
                w))
          else if argv = [''fastlane'', ''deploy''] then
            (if d = ''/srv/repos/legacy/ios'' then (Exited 1 [(Stderr, [CHR 0xFF])], w)
             else if env ''ENV'' = Some ''staging''
             then (Exited 0 [(Stdout, ''deployed'' @ nl)], w)
             else (Exited 1 [(Stdout, ''building'' @ nl), (Stderr, ''no such lane'' @ nl)], w))
          else (SpawnError ENOENT, w))"

definition sample_os :: "sample_world os" where
  "sample_os =
     \<lparr>spawn = sample_spawn,
      path_exists = (\<lambda>p w. p \<in> set (dirs w)),
      makedirs = (\<lambda>p w. if p \<in> set (dirs w) then (Some EEXIST, w)
                         else (None, w\<lparr>dirs := dirs w @ [p]\<rparr>)),
      getcwd = (\<lambda>w. ''/''),
      decode = (\<lambda>b. if CHR 0xFF \<in> set b then None else Some b),
      unicode_lower = (\<lambda>t. t)\<rparr>"

definition sample_cfg :: config where
  "sample_cfg =
     \<lparr>REPOS_ROOT = ''/srv/repos/'', S3_KEY = ''key'', S3_SECRET = ''secret'',
      S3_BUCKET = ''bucket'', S3_REGION = ''region'',
      projects = [(''app'', ''https://example.org/app.git''),
                  (''site'', ''https://example.org/site.git'')]\<rparr>"

definition sample_msg :: message where
  "sample_msg = \<lparr>msg_id = 1, frm = ''alice''\<rparr>"

text \<open>Before activation: no directory exists.\<close>

definition fresh :: "sample_world state" where
  "fresh =
     \<lparr>world = \<lparr>dirs = [], online = True\<rparr>, os_environ = [''PATH'' \<mapsto> ''/usr/bin''],
      spawned = [], bot = [], logged = []\<rparr>"

text \<open>After activation: the clones of \<^verbatim>\<open>app\<close>, \<^verbatim>\<open>site\<close> and \<^verbatim>\<open>legacy\<close> exist.\<close>

definition ready :: "sample_world state" where
  "ready =
     fresh\<lparr>world :=
       \<lparr>dirs = [''/srv/repos/'',
                ''/srv/repos/app'', ''/srv/repos/app/ios'', ''/srv/repos/app/ios/fastlane'',
                ''/srv/repos/site'', ''/srv/repos/site/ios'', ''/srv/repos/site/ios/fastlane'',
                ''/srv/repos/legacy'', ''/srv/repos/legacy/ios'',
                ''/srv/repos/legacy/ios/fastlane''],
        online = True\<rparr>\<rparr>"

definition offline :: "sample_world state" where
  "offline = ready\<lparr>world := (world ready)\<lparr>online := False\<rparr>\<rparr>"

text \<open>The sample configuration with the repository root written without a final slash.\<close>

definition bare_cfg :: config where
  "bare_cfg = sample_cfg\<lparr>REPOS_ROOT := ''/srv/repos''\<rparr>"

text \<open>A configuration whose first project cannot be cloned.\<close>

definition gone_cfg :: config where
  "gone_cfg =
     sample_cfg\<lparr>projects := [(''old'', ''https://example.org/gone.git''),
                              (''app'', ''https://example.org/app.git'')]\<rparr>"

text \<open>
  A project that is itself named after the release tool, cloned: its one subdirectory
  named \<^verbatim>\<open>fastlane\<close> is \<^verbatim>\<open>/srv/repos/fastlane/ios/fastlane\<close>.
\<close>

definition tool_cfg :: config where
  "tool_cfg = sample_cfg\<lparr>projects := [(''fastlane'', ''https://example.org/fastlane.git'')]\<rparr>"

definition tool_ready :: "sample_world state" where
  "tool_ready =
     fresh\<lparr>world :=
       \<lparr>dirs = [''/srv/repos/'', ''/srv/repos/fastlane'', ''/srv/repos/fastlane/ios'',
                ''/srv/repos/fastlane/ios/fastlane''],
        online = True\<rparr>\<rparr>"

section \<open>Properties\<close>

subsection \<open>Process Executor\<close>

lemma filter_to_stdout_pipe_STDOUT: "filter (to_stdout_pipe STDOUT) ws = ws"
  by (simp add: to_stdout_pipe_def)

lemma run_subprocess_unfold:
  "run_subprocess os argv cwd s =
     (let (c, w) = spawn os argv cwd (os_environ s) (world s);
          s' = s\<lparr>world := w,
                 spawned := spawned s @ [\<lparr>p_args = argv, p_cwd = cwd, p_env = os_environ s, p_child = c\<rparr>]\<rparr>
      in case child_error os argv c of
           Some e \<Rightarrow> (Inl e, s')
         | None \<Rightarrow>
             (Inr \<lparr>args = argv, returncode = 0, stdout = child_text os c, stderr = None\<rparr>, s'))"
  by (simp add: run_subprocess_def subprocess_run_def communicate_def read_stream_def
      read_pipe_def child_error_def child_text_def decoded_def filter_to_stdout_pipe_STDOUT
      Let_def split: prod.splits child.splits option.splits)

lemmas sample_defs =
  sample_os_def sample_spawn_def sample_find_def within_two_def basename_def sample_cfg_def
  sample_msg_def fresh_def ready_def offline_def ENOENT_def EEXIST_def

text \<open>
  C2, as stated, fails: the output is decoded before the exit status is looked at. In
  the sample world the release tool of the project \<^verbatim>\<open>legacy\<close> writes a byte that does
  not decode: \<^verbatim>\<open>fastlane env\<close> exits with status zero and \<^verbatim>\<open>run_subprocess\<close> does not
  return, \<^verbatim>\<open>fastlane deploy\<close> exits with status 1 and \<^verbatim>\<open>run_subprocess\<close> does not raise
  \<^verbatim>\<open>CalledProcessError\<close>; both raise \<^verbatim>\<open>UnicodeDecodeError\<close>.
\<close>

theorem undecodable_output_raises:
  "spawn sample_os [''fastlane'', ''env''] (Some ''/srv/repos/legacy/ios'') (os_environ ready)
       (world ready)
     = (Exited 0 [(Stdout, [CHR 0xFF])], world ready)
   \<and> fst (run_subprocess sample_os [''fastlane'', ''env''] (Some ''/srv/repos/legacy/ios'') ready)
     = Inl UnicodeDecodeError
   \<and> spawn sample_os [''fastlane'', ''deploy''] (Some ''/srv/repos/legacy/ios'') (os_environ ready)
       (world ready)
     = (Exited 1 [(Stderr, [CHR 0xFF])], world ready)
   \<and> fst (run_subprocess sample_os [''fastlane'', ''deploy''] (Some ''/srv/repos/legacy/ios'') ready)
     = Inl UnicodeDecodeError"
  by (simp add: sample_defs run_subprocess_unfold child_error_def decoded_def)

text \<open>
  C2, amended. For every argument vector, working directory and state, whatever the
  operating system answers: all writes of the two streams are read as one buffer, in
  the order written. When the child exited and the buffer decodes in the locale
  encoding, \<^verbatim>\<open>run_subprocess\<close> raises \<^verbatim>\<open>CalledProcessError\<close> with the status, the arguments
  and the decoded text if the status is not zero, and returns the completed process with
  that text (and no separate standard error) if it is zero. When the buffer does not
  decode it raises \<^verbatim>\<open>UnicodeDecodeError\<close>, whatever the status; when the child could not
  be started it raises \<^verbatim>\<open>OSError\<close>. So \<^verbatim>\<open>CalledProcessError\<close> is raised if and only if
  the child exited with a non-zero status and its output decodes. The world afterwards
  is the one the operating system answered.
\<close>

theorem run_subprocess_outcome:
  assumes "spawn os argv cwd (os_environ s) (world s) = (c, w)"
  shows "fst (run_subprocess os argv cwd s) =
           (case c of
              SpawnError n \<Rightarrow> Inl (OSError n)
            | Exited rc ws \<Rightarrow>
                (case decode os (concat (map snd ws)) of
                   None \<Rightarrow> Inl UnicodeDecodeError
                 | Some t \<Rightarrow>
                     if rc \<noteq> 0
                     then Inl (CalledProcessError rc argv (Some (translate_newlines t)) None)
                     else Inr \<lparr>args = argv, returncode = 0,
                               stdout = Some (translate_newlines t), stderr = None\<rparr>))
       \<and> world (snd (run_subprocess os argv cwd s)) = w
       \<and> ((\<exists>rc cmd out err.
              fst (run_subprocess os argv cwd s) = Inl (CalledProcessError rc cmd out err))
            \<longleftrightarrow> (\<exists>rc ws t. c = Exited rc ws \<and> rc \<noteq> 0
                   \<and> decode os (concat (map snd ws)) = Some t))"
proof (cases c)
  case (SpawnError n)
  with assms show ?thesis
    by (simp add: run_subprocess_unfold child_error_def)
next
  case (Exited rc ws)
  show ?thesis
  proof (cases "decode os (concat (map snd ws))")
    case None
    with assms Exited show ?thesis
      by (simp add: run_subprocess_unfold child_error_def decoded_def)
  next
    case (Some t)
    with assms Exited show ?thesis
      by (simp add: run_subprocess_unfold child_error_def child_text_def decoded_def)
  qed
qed

theorem run_subprocess_outcome_witness:
  "spawn sample_os [''fastlane'', ''deploy''] (Some ''/srv/repos/app/ios'') (os_environ ready)
       (world ready)
     = (Exited 1 [(Stdout, ''building'' @ nl), (Stderr, ''no such lane'' @ nl)], world ready)
   \<and> fst (run_subprocess sample_os [''fastlane'', ''deploy''] (Some ''/srv/repos/app/ios'') ready)
     = Inl (CalledProcessError 1 [''fastlane'', ''deploy'']
              (Some (''building'' @ nl @ ''no such lane'' @ nl)) None)
   \<and> spawn sample_os [''bundle'', ''install''] (Some ''/srv/repos/app/ios'') (os_environ ready)
       (world ready)
     = (Exited 0 [(Stdout, ''Bundle complete'' @ nl)], world ready)
   \<and> fst (run_subprocess sample_os [''bundle'', ''install''] (Some ''/srv/repos/app/ios'') ready)
     = Inr \<lparr>args = [''bundle'', ''install''], returncode = 0,
            stdout = Some (''Bundle complete'' @ nl), stderr = None\<rparr>"
proof -
  have h: "spawn sample_os [''fastlane'', ''deploy''] (Some ''/srv/repos/app/ios'')
             (os_environ ready) (world ready)
           = (Exited 1 [(Stdout, ''building'' @ nl), (Stderr, ''no such lane'' @ nl)], world ready)"
    by (simp add: sample_os_def sample_spawn_def ready_def fresh_def)
  have k: "spawn sample_os [''bundle'', ''install''] (Some ''/srv/repos/app/ios'')
             (os_environ ready) (world ready)
           = (Exited 0 [(Stdout, ''Bundle complete'' @ nl)], world ready)"
    by (simp add: sample_os_def sample_spawn_def ready_def fresh_def)
  have d: "decode sample_os = (\<lambda>b. if CHR 0xFF \<in> set b then None else Some b)"
    by (simp add: sample_os_def)
  from run_subprocess_outcome [OF h] run_subprocess_outcome [OF k] h k show ?thesis
    by (simp add: d nl_def)
qed

subsection \<open>Children started and results\<close>

lemma replay_append: "replay os w (ps @ qs) = replay os (replay os w ps) qs"
  by (induction ps arbitrary: w) simp_all

lemma genuine_append:
  "genuine os w (ps @ qs) \<longleftrightarrow> genuine os w ps \<and> genuine os (replay os w ps) qs"
  by (induction ps arbitrary: w) auto

lemma traced_append:
  assumes "traced os s s1 ps1" and "traced os s1 s2 ps2"
  shows "traced os s s2 (ps1 @ ps2)"
  using assms by (auto simp: traced_def genuine_append replay_append)

lemma traced_new_procs: "traced os s s' ps \<Longrightarrow> new_procs s s' = ps"
  by (simp add: traced_def new_procs_def)

lemma run_subprocess_traced:
  assumes "run_subprocess os argv cwd s = (r, s')"
  shows "\<exists>p. traced os s s' [p] \<and> follows os [p] r \<and> p_args p = argv \<and> p_cwd p = cwd
           \<and> (\<forall>cp. r = Inr cp \<longrightarrow>
                 (\<exists>t. stdout cp = Some t \<and> proc_output os p = Some t)
                 \<and> (\<exists>ws. p_child p = Exited 0 ws))"
proof -
  obtain c w where sp: "spawn os argv cwd (os_environ s) (world s) = (c, w)"
    by (cases "spawn os argv cwd (os_environ s) (world s)")
  let ?p = "\<lparr>p_args = argv, p_cwd = cwd, p_env = os_environ s, p_child = c\<rparr>"
  have st: "s' = s\<lparr>world := w, spawned := spawned s @ [?p]\<rparr>"
    and res: "r = (case child_error os argv c of
                    Some e \<Rightarrow> Inl e
                  | None \<Rightarrow> Inr \<lparr>args = argv, returncode = 0, stdout = child_text os c,
                                  stderr = None\<rparr>)"
    using assms sp by (auto simp: run_subprocess_unfold Let_def split: option.splits)
  have tr: "traced os s s' [?p]"
    using sp by (simp add: st traced_def)
  have fo: "follows os [?p] r"
    by (simp add: res follows_def succeeded_def raised_def split: option.splits)
  have out: "\<forall>cp. r = Inr cp \<longrightarrow>
                 (\<exists>t. stdout cp = Some t \<and> proc_output os ?p = Some t)
                 \<and> (\<exists>ws. p_child ?p = Exited 0 ws)"
    by (cases c)
       (auto simp: res child_error_def child_text_def proc_output_def
          split: option.splits if_splits)
  from tr fo out show ?thesis
    by (intro exI [of _ ?p]) simp
qed

lemma traced_follows_append:
  assumes "traced os s s1 ps1" and "list_all (succeeded os) ps1"
    and "traced os s1 s2 ps2" and "follows os ps2 r"
  shows "traced os s s2 (ps1 @ ps2) \<and> follows os (ps1 @ ps2) r"
  using assms traced_append [OF assms(1,3)]
  by (cases r) (auto simp: follows_def butlast_append)

lemma traced_follows_Inl:
  assumes "traced os s s1 ps1" and "list_all (succeeded os) ps1"
    and "traced os s1 s2 ps2" and "follows os ps2 (Inl e :: error + 'a)"
  shows "traced os s s2 (ps1 @ ps2) \<and> follows os (ps1 @ ps2) (Inl e :: error + 'b)"
  using assms traced_append [OF assms(1,3)]
  by (auto simp: follows_def butlast_append)

lemma git_each_traced:
  assumes "git_each os argvs root s = (r, s')"
  shows "\<exists>ps. traced os s s' ps \<and> follows os ps r
           \<and> map p_args ps = map ((#) ''git'') (take (length ps) argvs)
           \<and> list_all (\<lambda>p. p_cwd p = Some root) ps
           \<and> (\<forall>v. r = Inr v \<longrightarrow> length ps = length argvs)"
  using assms
proof (induction argvs arbitrary: s)
  case Nil
  then show ?case
    by (intro exI [of _ "[]"]) (auto simp: traced_def follows_def)
next
  case (Cons argv rest)
  obtain r1 s1 where run: "run_subprocess os (''git'' # argv) (Some root) s = (r1, s1)"
    by (cases "run_subprocess os (''git'' # argv) (Some root) s")
  from run_subprocess_traced [OF run] obtain p where
    p: "traced os s s1 [p]" "follows os [p] r1" "p_args p = ''git'' # argv"
       "p_cwd p = Some root"
    by blast
  show ?case
  proof (cases r1)
    case (Inl e)
    with Cons.prems run have "r = Inl e" "s' = s1" by auto
    with p Inl show ?thesis
      by (intro exI [of _ "[p]"]) (auto simp: follows_def)
  next
    case (Inr cp)
    with Cons.prems run have rest: "git_each os rest root s1 = (r, s')" by auto
    from Cons.IH [OF rest] obtain ps where
      ps: "traced os s1 s' ps" "follows os ps r"
          "map p_args ps = map ((#) ''git'') (take (length ps) rest)"
          "list_all (\<lambda>p. p_cwd p = Some root) ps"
          "\<forall>v. r = Inr v \<longrightarrow> length ps = length rest"
      by blast
    from p Inr have "list_all (succeeded os) [p]" by (simp add: follows_def)
    from traced_follows_append [OF p(1) this ps(1) ps(2)] p ps
    show ?thesis
      by (intro exI [of _ "p # ps"]) auto
  qed
qed

lemma fetch_branch_traced:
  assumes "fetch_branch_from_origin os root b s = (r, s')"
  shows "\<exists>ps. ps \<noteq> [] \<and> traced os s s' ps \<and> follows os ps r
           \<and> map p_args ps = take (length ps)
                 [[''git'', ''fetch'', ''-p''],
                  [''git'', ''checkout'', ''-B'', b, ''origin/'' @ b, ''-f'']]
           \<and> list_all (\<lambda>p. p_cwd p = Some root) ps
           \<and> length ps \<le> 2
           \<and> (\<forall>v. r = Inr v \<longrightarrow> length ps = 2)"
proof -
  from git_each_traced [OF assms [unfolded fetch_branch_from_origin_def]]
  obtain ps where ps: "traced os s s' ps" "follows os ps r"
      "map p_args ps = map ((#) ''git'')
         (take (length ps) [[''fetch'', ''-p''], [''checkout'', ''-B'', b, ''origin/'' @ b, ''-f'']])"
      "list_all (\<lambda>p. p_cwd p = Some root) ps"
      "\<forall>v. r = Inr v \<longrightarrow> length ps = 2"
    by auto
  have ne: "ps \<noteq> []"
    using ps(2,5) by (cases r) (auto simp: follows_def)
  have ar: "map p_args ps = take (length ps)
                 [[''git'', ''fetch'', ''-p''],
                  [''git'', ''checkout'', ''-B'', b, ''origin/'' @ b, ''-f'']]"
    using ps(3) by (simp add: take_map [symmetric])
  from arg_cong [OF ar, of length] have "length ps \<le> 2" by simp
  with ne ar ps show ?thesis by blast
qed

lemma find_fastlane_directory_traced:
  assumes "find_fastlane_directory os root s = (r, s')"
  shows "\<exists>p. traced os s s' [p] \<and> follows os [p] r
           \<and> p_args p = [''find'', root, ''-maxdepth'', ''2'', ''-name'', ''fastlane'',
                          ''-type'', ''d'', ''-print'', ''-quit'']
           \<and> p_cwd p = Some root
           \<and> (\<forall>d. r = Inr d \<longrightarrow>
                 (\<exists>t. proc_output os p = Some t
                    \<and> d = abspath (getcwd os (world s')) (path_join t ''..'')))"
proof -
  obtain r1 s1 where run: "run_subprocess os (find_argv root) (Some root) s = (r1, s1)"
    by (cases "run_subprocess os (find_argv root) (Some root) s")
  from run_subprocess_traced [OF run] obtain p where
    p: "traced os s s1 [p]" "follows os [p] r1" "p_args p = find_argv root" "p_cwd p = Some root"
       "\<forall>cp. r1 = Inr cp \<longrightarrow> (\<exists>t. stdout cp = Some t \<and> proc_output os p = Some t)"
    by blast
  show ?thesis
  proof (cases r1)
    case (Inl e)
    with assms run have "r = Inl e" "s' = s1"
      by (auto simp: find_fastlane_directory_def)
    with p Inl show ?thesis
      by (intro exI [of _ p]) (auto simp: follows_def find_argv_def)
  next
    case (Inr cp)
    with p obtain t where t: "stdout cp = Some t" "proc_output os p = Some t" by blast
    with assms run Inr have
      "r = Inr (abspath (getcwd os (world s1)) (path_join t pardir))" "s' = s1"
      by (auto simp: find_fastlane_directory_def)
    with p Inr t show ?thesis
      by (intro exI [of _ p]) (auto simp: follows_def find_argv_def pardir_def)
  qed
qed

subsection \<open>Paths\<close>

lemma split_on_nonempty: "split_on c xs \<noteq> []"
  by (induction xs) (auto split: list.splits)

lemma split_on_append_sep: "split_on c (a @ c # b) = split_on c a @ split_on c b"
proof (induction a)
  case Nil
  show ?case by simp
next
  case (Cons x a)
  then show ?case
    using split_on_nonempty [of c a]
    by (cases "split_on c a") auto
qed

lemma split_on_snoc_sep: "split_on c (a @ [c]) = split_on c a @ [[]]"
  using split_on_append_sep [of c a "[]"] by simp

lemma split_fastlane: "split_on sep (''fastlane'' @ [CHR 0x0A]) = [''fastlane'' @ [CHR 0x0A]]"
  by (simp add: sep_def)

lemma split_pardir: "split_on sep pardir = [pardir]"
  by (simp add: sep_def pardir_def)

lemma norm_step_push_pop:
  "norm_step a (norm_step a N (''fastlane'' @ [CHR 0x0A])) pardir = N"
  by (simp add: norm_step_def pardir_def)

lemma norm_step_empty: "norm_step a N [] = N"
  by (simp add: norm_step_def)

lemma comps_parent:
  assumes "q \<noteq> []"
  shows "foldl (norm_step a) [] (split_on sep (path_join q ''fastlane'' @ CHR 0x0A # sep # pardir))
       = foldl (norm_step a) [] (split_on sep q)"
proof (cases "last q = sep")
  case True
  with assms obtain q' where q: "q = q' @ [sep]"
    by (metis append_butlast_last_id)
  have "path_join q ''fastlane'' @ CHR 0x0A # sep # pardir
          = q' @ sep # ((''fastlane'' @ [CHR 0x0A]) @ sep # pardir)"
    using q by (simp add: path_join_def sep_def)
  then show ?thesis
    using q
    by (simp only: split_on_append_sep split_on_snoc_sep split_fastlane split_pardir
        split_on.simps(1) foldl_append foldl.simps norm_step_push_pop norm_step_empty)
next
  case False
  have "path_join q ''fastlane'' @ CHR 0x0A # sep # pardir
          = q @ sep # ((''fastlane'' @ [CHR 0x0A]) @ sep # pardir)"
    using False assms by (simp add: path_join_def sep_def)
  then show ?thesis
    by (simp only: split_on_append_sep split_fastlane split_pardir
        foldl_append foldl.simps norm_step_push_pop)
qed

lemma initial_slashes_parent:
  assumes "q \<noteq> []"
  shows "initial_slashes (path_join q ''fastlane'' @ CHR 0x0A # sep # pardir) = initial_slashes q"
proof -
  obtain x q1 where q: "q = x # q1" using assms by (cases q) auto
  show ?thesis
  proof (cases q1)
    case Nil
    with q show ?thesis
      by (auto simp: initial_slashes_def path_join_def sep_def)
  next
    case (Cons y q2)
    show ?thesis
    proof (cases q2)
      case Nil
      with q Cons show ?thesis
        by (auto simp: initial_slashes_def path_join_def sep_def)
    next
      case (Cons z q3)
      with q \<open>q1 = y # q2\<close> show ?thesis
        by (auto simp: initial_slashes_def path_join_def sep_def)
    qed
  qed
qed

lemma normpath_parent:
  assumes "q \<noteq> []"
  shows "normpath (path_join q ''fastlane'' @ CHR 0x0A # sep # pardir) = normpath q"
proof -
  have "path_join q ''fastlane'' @ CHR 0x0A # sep # pardir \<noteq> []" by simp
  then show ?thesis
    using assms
    by (simp add: normpath_def comps_parent initial_slashes_parent Let_def)
qed

lemma abspath_parent:
  assumes "p \<noteq> []"
  shows "abspath cwd (path_join (path_join p ''fastlane'' @ [CHR 0x0A]) pardir) = abspath cwd p"
proof -
  let ?x = "path_join p ''fastlane'' @ CHR 0x0A # sep # pardir"
  have x: "path_join (path_join p ''fastlane'' @ [CHR 0x0A]) pardir = ?x"
    by (simp add: path_join_def [of "_ @ [CHR 0x0A]"] pardir_def sep_def)
  show ?thesis
  proof (cases "isabs p")
    case True
    then have "isabs ?x"
      using assms by (cases p) (auto simp: isabs_def path_join_def sep_def)
    with True show ?thesis
      by (simp add: abspath_def x normpath_parent [OF assms])
  next
    case False
    then have nx: "\<not> isabs ?x"
      using assms by (cases p) (auto simp: isabs_def path_join_def sep_def)
    have hd: "hd p \<noteq> sep"
      using False assms by (cases p) (auto simp: isabs_def)
    have j: "path_join cwd p \<noteq> []"
      using assms by (simp add: path_join_def)
    have "path_join cwd ?x = path_join (path_join cwd p) ''fastlane'' @ CHR 0x0A # sep # pardir"
      using assms hd by (cases p) (auto simp: path_join_def sep_def)
    with False nx show ?thesis
      by (simp add: abspath_def x normpath_parent [OF j])
  qed
qed

lemma split_on_plain: "c \<notin> set x \<Longrightarrow> split_on c x = [x]"
  by (induction x) auto

lemma split_join_plain:
  assumes "cs \<noteq> []" and "\<forall>x\<in>set cs. c \<notin> set x"
  shows "split_on c (join_with c cs) = cs"
  using assms
proof (induction c cs rule: join_with.induct)
  case (1 c)
  then show ?case by simp
next
  case (2 c x)
  then show ?case by (simp add: split_on_plain)
next
  case (3 c x y ys)
  then show ?case
    by (simp add: split_on_append_sep split_on_plain)
qed

lemma foldl_norm_step_plain:
  "list_all plain_component cs \<Longrightarrow> foldl (norm_step a) N cs = N @ cs"
proof (induction cs arbitrary: N)
  case Nil
  show ?case by simp
next
  case (Cons x cs)
  then show ?case
    by (simp add: norm_step_def plain_component_def)
qed

lemma normpath_plain:
  assumes "list_all plain_component cs"
  shows "normpath (abs_path_of cs) = abs_path_of cs"
proof (cases cs)
  case Nil
  then show ?thesis
    by (simp add: normpath_def abs_path_of_def initial_slashes_def norm_step_def)
next
  case (Cons x xs)
  with assms have "x \<noteq> []" "sep \<notin> set x"
    by (auto simp: plain_component_def)
  then have x: "x \<noteq> []" "hd x \<noteq> sep"
    by (cases x; auto)+
  then have j: "hd (join_with sep cs) \<noteq> sep" "join_with sep cs \<noteq> []"
    using Cons by (cases xs; simp)+
  then have n: "initial_slashes (abs_path_of cs) = 1"
    by (cases "join_with sep cs") (auto simp: initial_slashes_def abs_path_of_def)
  have "\<forall>x\<in>set cs. sep \<notin> set x"
    using assms by (auto simp: list_all_iff plain_component_def)
  with Cons have "split_on sep (join_with sep cs) = cs"
    by (intro split_join_plain) auto
  then have "foldl (norm_step True) [] (split_on sep (abs_path_of cs)) = cs"
    using assms by (simp add: abs_path_of_def norm_step_empty foldl_norm_step_plain)
  with n show ?thesis
    by (simp add: normpath_def abs_path_of_def)
qed

lemma abspath_plain:
  "list_all plain_component cs \<Longrightarrow> abspath cwd (abs_path_of cs) = abs_path_of cs"
  using normpath_plain [of cs] by (simp add: abspath_def isabs_def abs_path_of_def)

subsection \<open>Repository Synchronizer\<close>

text \<open>
  C3. For every repository root, branch name and state, whatever the operating system
  answers. Let the operating system answer \<open>c1\<close> and leave the world \<open>w1\<close> when \<^verbatim>\<open>git fetch
  -p\<close> is started in the repository root, and answer \<open>c2\<close> and leave \<open>w2\<close> when \<^verbatim>\<open>git
  checkout -B <branch> origin/<branch> -f\<close> is started there in \<open>w1\<close>. If the first call
  raises (the child exited with a non-zero status, could not be started, or wrote what
  does not decode), \<^verbatim>\<open>fetch_branch_from_origin\<close> ends with that exception in the world
  \<open>w1\<close>, having started the fetch only: the checkout is not run. Otherwise it ends in the
  world \<open>w2\<close>, having started the fetch and then the checkout, with the exception of the
  checkout or a normal return. Nothing else of the state changes.
\<close>

theorem fetch_branch_from_origin_two_steps:
  assumes "spawn os [''git'', ''fetch'', ''-p''] (Some project_root) (os_environ s) (world s)
             = (c1, w1)"
    and "spawn os [''git'', ''checkout'', ''-B'', branch_name, ''origin/'' @ branch_name, ''-f'']
           (Some project_root) (os_environ s) w1
             = (c2, w2)"
  shows "fetch_branch_from_origin os project_root branch_name s =
           (case child_error os [''git'', ''fetch'', ''-p''] c1 of
              Some e \<Rightarrow>
                (Inl e,
                 s\<lparr>world := w1,
                   spawned := spawned s @
                     [\<lparr>p_args = [''git'', ''fetch'', ''-p''], p_cwd = Some project_root,
                       p_env = os_environ s, p_child = c1\<rparr>]\<rparr>)
            | None \<Rightarrow>
                (case child_error os
                        [''git'', ''checkout'', ''-B'', branch_name, ''origin/'' @ branch_name,
                         ''-f''] c2 of
                   Some e \<Rightarrow> Inl e
                 | None \<Rightarrow> Inr (),
                 s\<lparr>world := w2,
                   spawned := spawned s @
                     [\<lparr>p_args = [''git'', ''fetch'', ''-p''], p_cwd = Some project_root,
                       p_env = os_environ s, p_child = c1\<rparr>,
                      \<lparr>p_args = [''git'', ''checkout'', ''-B'', branch_name,
                                 ''origin/'' @ branch_name, ''-f''],
                       p_cwd = Some project_root, p_env = os_environ s, p_child = c2\<rparr>]\<rparr>))"
  using assms
  by (simp add: fetch_branch_from_origin_def run_subprocess_unfold split: option.splits)

theorem fetch_branch_from_origin_two_steps_witness:
  "fst (fetch_branch_from_origin sample_os ''/srv/repos/app'' ''main'' offline)
     = Inl (CalledProcessError 128 [''git'', ''fetch'', ''-p'']
              (Some (''fatal: unable to access origin'' @ nl)) None)
   \<and> map p_args (spawned (snd (fetch_branch_from_origin sample_os ''/srv/repos/app'' ''main''
        offline)))
     = [[''git'', ''fetch'', ''-p'']]
   \<and> fst (fetch_branch_from_origin sample_os ''/srv/repos/app'' ''main'' ready) = Inr ()
   \<and> map p_args (spawned (snd (fetch_branch_from_origin sample_os ''/srv/repos/app'' ''main''
        ready)))
     = [[''git'', ''fetch'', ''-p''],
        [''git'', ''checkout'', ''-B'', ''main'', ''origin/main'', ''-f'']]
   \<and> map p_cwd (spawned (snd (fetch_branch_from_origin sample_os ''/srv/repos/app'' ''main''
        ready)))
     = [Some ''/srv/repos/app'', Some ''/srv/repos/app'']
   \<and> fst (fetch_branch_from_origin sample_os ''/srv/repos/app'' ''nobranch'' ready)
     = Inl (CalledProcessError 128
              [''git'', ''checkout'', ''-B'', ''nobranch'', ''origin/nobranch'', ''-f'']
              (Some (''fatal: not a commit'' @ nl)) None)"
proof -
  have d: "decode sample_os = (\<lambda>b. if CHR 0xFF \<in> set b then None else Some b)"
    by (simp add: sample_os_def)
  have a1: "spawn sample_os [''git'', ''fetch'', ''-p''] (Some ''/srv/repos/app'')
              (os_environ offline) (world offline)
            = (Exited 128 [(Stderr, ''fatal: unable to access origin'' @ nl)], world offline)"
    by (simp add: sample_defs)
  have a2: "spawn sample_os [''git'', ''checkout'', ''-B'', ''main'', ''origin/'' @ ''main'', ''-f'']
              (Some ''/srv/repos/app'') (os_environ offline) (world offline)
            = (Exited 0 [(Stderr, ''Reset branch'' @ nl), (Stdout, ''up to date'' @ nl)],
               world offline)"
    by (simp add: sample_defs)
  have b1: "spawn sample_os [''git'', ''fetch'', ''-p''] (Some ''/srv/repos/app'')
              (os_environ ready) (world ready)
            = (Exited 0 [], world ready)"
    by (simp add: sample_defs)
  have b2: "spawn sample_os [''git'', ''checkout'', ''-B'', ''main'', ''origin/'' @ ''main'', ''-f'']
              (Some ''/srv/repos/app'') (os_environ ready) (world ready)
            = (Exited 0 [(Stderr, ''Reset branch'' @ nl), (Stdout, ''up to date'' @ nl)],
               world ready)"
    by (simp add: sample_defs)
  have c2: "spawn sample_os
              [''git'', ''checkout'', ''-B'', ''nobranch'', ''origin/'' @ ''nobranch'', ''-f'']
              (Some ''/srv/repos/app'') (os_environ ready) (world ready)
            = (Exited 128 [(Stderr, ''fatal: not a commit'' @ nl)], world ready)"
    by (simp add: sample_defs)
  have sp: "spawned offline = []" "spawned ready = []"
    by (simp_all add: sample_defs)
  from fetch_branch_from_origin_two_steps [OF a1 a2]
       fetch_branch_from_origin_two_steps [OF b1 b2]
       fetch_branch_from_origin_two_steps [OF b1 c2]
  show ?thesis
    by (simp add: child_error_def decoded_def d sp nl_def)
qed

subsection \<open>Tooling Locator\<close>

text \<open>
  Where the locator is right: when \<^verbatim>\<open>find\<close> exits with status zero and prints the path
  of a directory \<^verbatim>\<open>fastlane\<close> in some directory \<open>parent\<close>, followed by a newline, the
  result is \<open>parent\<close> as an absolute normal path (the newline goes with the component
  that \<^verbatim>\<open>..\<close> removes).
\<close>

lemma locator_parent_of_printed_path:
  assumes "spawn os [''find'', project_root, ''-maxdepth'', ''2'', ''-name'', ''fastlane'',
                     ''-type'', ''d'', ''-print'', ''-quit'']
             (Some project_root) (os_environ s) (world s) = (Exited 0 ws, w)"
    and "decoded os ws = Some (path_join parent ''fastlane'' @ [CHR 0x0A])"
    and "parent \<noteq> []"
  shows "fst (find_fastlane_directory os project_root s) = Inr (abspath (getcwd os w) parent)"
proof -
  have "fst (find_fastlane_directory os project_root s)
          = Inr (abspath (getcwd os w)
                   (path_join (path_join parent ''fastlane'' @ [CHR 0x0A]) pardir))"
    using assms(1,2)
    by (simp add: find_fastlane_directory_def find_argv_def run_subprocess_unfold
        child_error_def child_text_def)
  then show ?thesis
    using assms(3) by (simp add: abspath_parent)
qed

lemma locator_sample_app:
  "fst (find_fastlane_directory sample_os ''/srv/repos/app'' ready) = Inr ''/srv/repos/app/ios''"
  by (simp add: sample_defs find_fastlane_directory_def find_argv_def run_subprocess_unfold
      child_error_def child_text_def decoded_def abspath_def isabs_def normpath_def
      initial_slashes_def norm_step_def path_join_def sep_def pardir_def nl_def)

text \<open>
  C4 on the code. The project \<^verbatim>\<open>fastlane\<close> is cloned at \<^verbatim>\<open>/srv/repos/fastlane\<close>; its
  tree contains exactly one subdirectory named \<^verbatim>\<open>fastlane\<close> within two levels,
  \<^verbatim>\<open>/srv/repos/fastlane/ios/fastlane\<close>, whose parent is \<^verbatim>\<open>/srv/repos/fastlane/ios\<close>.
  \<^verbatim>\<open>find\<close> visits its start point first, at depth 0, and the start point is a directory
  named \<^verbatim>\<open>fastlane\<close>: it is printed, the search stops, and \<^verbatim>\<open>find_fastlane_directory\<close>
  returns the parent of the repository root, \<^verbatim>\<open>/srv/repos\<close>.
\<close>

theorem locator_takes_root_for_match:
  "get_project_root tool_cfg ''fastlane'' = ''/srv/repos/fastlane''
   \<and> tool_subdirs ''/srv/repos/fastlane'' (world tool_ready)
     = [''/srv/repos/fastlane/ios/fastlane'']
   \<and> spawn sample_os
        [''find'', ''/srv/repos/fastlane'', ''-maxdepth'', ''2'', ''-name'', ''fastlane'',
         ''-type'', ''d'', ''-print'', ''-quit'']
        (Some ''/srv/repos/fastlane'') (os_environ tool_ready) (world tool_ready)
     = (Exited 0 [(Stdout, ''/srv/repos/fastlane'' @ nl)], world tool_ready)
   \<and> fst (find_fastlane_directory sample_os ''/srv/repos/fastlane'' tool_ready)
     = Inr ''/srv/repos''"
  by (simp add: sample_defs tool_cfg_def tool_ready_def tool_subdirs_def get_project_root_def
      find_fastlane_directory_def find_argv_def run_subprocess_unfold
      child_error_def child_text_def decoded_def abspath_def isabs_def normpath_def
      initial_slashes_def norm_step_def path_join_def sep_def pardir_def nl_def)

subsection \<open>Release Runner\<close>

lemma report_success_effect:
  assumes "report_success msg cp name s = (r, s')" and "stdout cp = Some text"
  shows "r = Inr (Some (StreamRequest (frm msg) text name))
       \<and> bot s' = bot s @ [RemoveReaction msg ''hourglass'', AddReaction msg ''white_check_mark'',
                            StreamRequest (frm msg) text name]
       \<and> spawned s' = spawned s \<and> os_environ s' = os_environ s \<and> logged s' = logged s
       \<and> world s' = world s"
  using assms
  by (auto simp: report_success_def str_encode_def remove_reaction_def add_reaction_def
      send_stream_request_def)

lemma report_failure_effect:
  assumes "report_failure msg (Some text) name s = (r, s')"
  shows "r = Inr None
       \<and> bot s' = bot s @ [RemoveReaction msg ''hourglass'', AddReaction msg ''x'',
                            StreamRequest (frm msg) text name]
       \<and> spawned s' = spawned s \<and> os_environ s' = os_environ s
       \<and> logged s' = logged s @ [Some text] \<and> world s' = world s"
  using assms
  by (auto simp: report_failure_def str_encode_def remove_reaction_def add_reaction_def
      send_stream_request_def log_exception_def)

lemma list_all_butlast: "list_all P ps \<Longrightarrow> list_all P (butlast ps)"
  by (auto simp: list_all_iff dest: in_set_butlastD)

lemma located_after_find:
  assumes "traced os s s2 [a, b, p2]" and "proc_output os p2 = Some t"
  shows "located os (world s) (a # b # p2 # rest)
           = abspath (getcwd os (world s2)) (path_join t ''..'')"
  using assms by (simp add: located_def traced_def)

lemma steps_then_report_traced:
  assumes "steps_then_report os cfg msg pn bn action name s = (r, s')"
  shows "\<exists>ps. spawned s' = spawned s @ ps \<and> os_environ s' = os_environ s
           \<and> logged s' = logged s
           \<and> flow_history os (os_environ s) (REPOS_ROOT cfg @ pn) bn action (world s) ps (world s')
           \<and> (case r of
                Inl e \<Rightarrow> raised os (last ps) = Some e \<and> bot s' = bot s
              | Inr v \<Rightarrow>
                  list_all (succeeded os) ps \<and> length ps = 5
                  \<and> (\<exists>t. proc_output os (last ps) = Some t
                       \<and> v = Some (StreamRequest (frm msg) t name)
                       \<and> bot s' = bot s @ [RemoveReaction msg ''hourglass'',
                                            AddReaction msg ''white_check_mark'',
                                            StreamRequest (frm msg) t name]))"
proof -
  let ?root = "REPOS_ROOT cfg @ pn"
  have root: "get_project_root cfg pn = ?root"
    by (simp add: get_project_root_def)
  have fails: ?thesis
    if "traced os s s' ps" "follows os ps (Inl e :: error + unit)" "r = Inl e"
       "map p_args ps = take (length ps) (flow_commands ?root bn action)"
       "map p_cwd ps = take (length ps) (flow_cwds ?root (located os (world s) ps))"
    for ps e
    using that
    by (intro exI [of _ ps]) (auto simp: traced_def follows_def flow_history_def)
  obtain r1 s1 where fetch: "fetch_branch_from_origin os ?root bn s = (r1, s1)"
    by (cases "fetch_branch_from_origin os ?root bn s")
  from fetch_branch_traced [OF fetch] obtain ps1 where
    ps1: "ps1 \<noteq> []" "traced os s s1 ps1" "follows os ps1 r1"
         "map p_args ps1 = take (length ps1)
                 [[''git'', ''fetch'', ''-p''],
                  [''git'', ''checkout'', ''-B'', bn, ''origin/'' @ bn, ''-f'']]"
         "list_all (\<lambda>p. p_cwd p = Some ?root) ps1"
         "length ps1 \<le> 2" "\<forall>v. r1 = Inr v \<longrightarrow> length ps1 = 2"
    by blast
  from ps1(1) obtain a rest1 where a: "ps1 = a # rest1"
    by (cases ps1) auto
  with ps1(6) have shape: "rest1 = [] \<or> (\<exists>b. rest1 = [b])"
    by (cases rest1) auto
  show ?thesis
  proof (cases r1)
    case (Inl e)
    with assms fetch have "r = Inl e" "s' = s1"
      by (auto simp: steps_then_report_def root)
    moreover from ps1(3) Inl have "follows os ps1 (Inl e :: error + unit)"
      by (simp add: follows_def)
    moreover from shape a ps1(4,5) have
      "map p_args ps1 = take (length ps1) (flow_commands ?root bn action)"
      "map p_cwd ps1 = take (length ps1) (flow_cwds ?root (located os (world s) ps1))"
      by (auto simp: flow_commands_def flow_cwds_def)
    ultimately show ?thesis
      using ps1(2) by (intro fails [of ps1 e]) auto
  next
    case Inr1: (Inr u1)
    with ps1(7) a shape obtain b where ab: "ps1 = [a, b]" by auto
    from Inr1 ps1(3) ab have ok1: "list_all (succeeded os) [a, b]"
      by (simp add: follows_def)
    from ps1(4,5) ab have args1: "p_args a = [''git'', ''fetch'', ''-p'']"
        "p_args b = [''git'', ''checkout'', ''-B'', bn, ''origin/'' @ bn, ''-f'']"
        "p_cwd a = Some ?root" "p_cwd b = Some ?root"
      by auto
    from ps1(2) ab have tr1: "traced os s s1 [a, b]" by simp
    obtain r2 s2 where find: "find_fastlane_directory os ?root s1 = (r2, s2)"
      by (cases "find_fastlane_directory os ?root s1")
    from find_fastlane_directory_traced [OF find] obtain p2 where
      p2: "traced os s1 s2 [p2]" "follows os [p2] r2"
          "p_args p2 = [''find'', ?root, ''-maxdepth'', ''2'', ''-name'', ''fastlane'',
                        ''-type'', ''d'', ''-print'', ''-quit'']"
          "p_cwd p2 = Some ?root"
          "\<forall>d. r2 = Inr d \<longrightarrow>
             (\<exists>t. proc_output os p2 = Some t
                \<and> d = abspath (getcwd os (world s2)) (path_join t ''..''))"
      by blast
    from traced_append [OF tr1 p2(1)] have tr2: "traced os s s2 [a, b, p2]" by simp
    show ?thesis
    proof (cases r2)
      case (Inl e)
      with assms fetch find Inr1 have "r = Inl e" "s' = s2"
        by (auto simp: steps_then_report_def root)
      moreover from traced_follows_Inl [OF tr1 ok1 p2(1)] p2(2) Inl
      have "follows os [a, b, p2] (Inl e :: error + unit)"
        by (auto simp: follows_def)
      moreover from args1 p2(3,4) have
        "map p_args [a, b, p2] = take (length [a, b, p2]) (flow_commands ?root bn action)"
        "map p_cwd [a, b, p2]
           = take (length [a, b, p2]) (flow_cwds ?root (located os (world s) [a, b, p2]))"
        by (auto simp: flow_commands_def flow_cwds_def)
      ultimately show ?thesis
        using tr2 by (intro fails [of "[a, b, p2]" e]) auto
    next
      case Inr2: (Inr dir)
      with p2(5) obtain t where t: "proc_output os p2 = Some t"
          "dir = abspath (getcwd os (world s2)) (path_join t ''..'')"
        by blast
      from Inr2 p2(2) ok1 have ok2: "list_all (succeeded os) [a, b, p2]"
        by (simp add: follows_def)
      have loc: "located os (world s) (a # b # p2 # rest) = dir" for rest
        using located_after_find [OF tr2 t(1)] t(2) by simp
      obtain r3 s3 where inst:
        "run_subprocess os [''bundle'', ''install''] (Some dir) s2 = (r3, s3)"
        by (cases "run_subprocess os [''bundle'', ''install''] (Some dir) s2")
      from run_subprocess_traced [OF inst] obtain p3 where
        p3: "traced os s2 s3 [p3]" "follows os [p3] r3"
            "p_args p3 = [''bundle'', ''install'']" "p_cwd p3 = Some dir"
        by blast
      from traced_append [OF tr2 p3(1)] have tr3: "traced os s s3 [a, b, p2, p3]" by simp
      show ?thesis
      proof (cases r3)
        case (Inl e)
        with assms fetch find inst Inr1 Inr2 have "r = Inl e" "s' = s3"
          by (auto simp: steps_then_report_def root)
        moreover from traced_follows_Inl [OF tr2 ok2 p3(1)] p3(2) Inl
        have "follows os [a, b, p2, p3] (Inl e :: error + unit)"
          by (auto simp: follows_def)
        moreover from args1 p2(3,4) p3(3,4) have
          "map p_args [a, b, p2, p3]
             = take (length [a, b, p2, p3]) (flow_commands ?root bn action)"
          "map p_cwd [a, b, p2, p3]
             = take (length [a, b, p2, p3])
                 (flow_cwds ?root (located os (world s) [a, b, p2, p3]))"
          by (auto simp: flow_commands_def flow_cwds_def loc)
        ultimately show ?thesis
          using tr3 by (intro fails [of "[a, b, p2, p3]" e]) auto
      next
        case Inr3: (Inr cp3)
        with p3(2) ok2 have ok3: "list_all (succeeded os) [a, b, p2, p3]"
          by (simp add: follows_def)
        obtain r4 s4 where act: "run_subprocess os action (Some dir) s3 = (r4, s4)"
          by (cases "run_subprocess os action (Some dir) s3")
        from run_subprocess_traced [OF act] obtain p4 where
          p4: "traced os s3 s4 [p4]" "follows os [p4] r4" "p_args p4 = action"
              "p_cwd p4 = Some dir"
              "\<forall>cp. r4 = Inr cp \<longrightarrow> (\<exists>t. stdout cp = Some t \<and> proc_output os p4 = Some t)"
          by blast
        from traced_append [OF tr3 p4(1)] have tr4: "traced os s s4 [a, b, p2, p3, p4]"
          by simp
        have args4: "map p_args [a, b, p2, p3, p4]
             = take (length [a, b, p2, p3, p4]) (flow_commands ?root bn action)"
          "map p_cwd [a, b, p2, p3, p4]
             = take (length [a, b, p2, p3, p4])
                 (flow_cwds ?root (located os (world s) [a, b, p2, p3, p4]))"
          using args1 p2(3,4) p3(3,4) p4(3,4)
          by (auto simp: flow_commands_def flow_cwds_def loc)
        show ?thesis
        proof (cases r4)
          case (Inl e)
          with assms fetch find inst act Inr1 Inr2 Inr3 have "r = Inl e" "s' = s4"
            by (auto simp: steps_then_report_def root)
          moreover from traced_follows_Inl [OF tr3 ok3 p4(1)] p4(2) Inl
          have "follows os [a, b, p2, p3, p4] (Inl e :: error + unit)"
            by (auto simp: follows_def)
          ultimately show ?thesis
            using tr4 args4 by (intro fails [of "[a, b, p2, p3, p4]" e]) auto
        next
          case Inr4: (Inr cp)
          with p4(5) obtain out where out: "stdout cp = Some out" "proc_output os p4 = Some out"
            by blast
          from Inr4 p4(2) ok3 have ok4: "list_all (succeeded os) [a, b, p2, p3, p4]"
            by (simp add: follows_def)
          from assms fetch find inst act Inr1 Inr2 Inr3 Inr4
          have "report_success msg cp name s4 = (r, s')"
            by (auto simp: steps_then_report_def root)
          from report_success_effect [OF this out(1)]
          have rep: "r = Inr (Some (StreamRequest (frm msg) out name))"
            "bot s' = bot s4 @ [RemoveReaction msg ''hourglass'',
                               AddReaction msg ''white_check_mark'',
                               StreamRequest (frm msg) out name]"
            "spawned s' = spawned s4" "os_environ s' = os_environ s4" "logged s' = logged s4"
            "world s' = world s4"
            by simp_all
          have hist: "flow_history os (os_environ s) ?root bn action (world s)
                        [a, b, p2, p3, p4] (world s')"
            unfolding flow_history_def
            using tr4 args4 list_all_butlast [OF ok4] rep(6)
            by (simp add: traced_def)
          from tr4 rep ok4 out(2) hist show ?thesis
            by (intro exI [of _ "[a, b, p2, p3, p4]"]) (simp add: traced_def)
        qed
      qed
    qed
  qed
qed

lemma fastlane_env_eq:
  "fastlane_env os cfg msg pn bn s =
     guarded msg ''error-env.txt''
       (steps_then_report os cfg msg pn bn [''fastlane'', ''env''] ''response-env.txt''
          (add_reaction msg ''hourglass'' s))"
  unfolding fastlane_env_def fastlane_env_try_def guarded_def steps_then_report_def
    install_bundle_def check_fastlane_env_def
  by (rule refl)

lemma fastlane_eq:
  "fastlane os cfg msg pn environment bn s =
     guarded msg (''error-'' @ environment @ ''.txt'')
       (steps_then_report os cfg msg pn bn [''fastlane'', ''deploy'']
          (''response-'' @ environment @ ''.txt'')
          (add_reaction msg ''hourglass''
             (s\<lparr>os_environ := (os_environ s)(''ENV'' \<mapsto> environment)\<rparr>)))"
  unfolding fastlane_def fastlane_try_def guarded_def steps_then_report_def
    install_bundle_def build_fastlane_def Let_def
  by (rule refl)

lemma raised_command_failed:
  assumes "raised os p = Some (CalledProcessError rc cmd out err)"
  shows "command_failed os p \<and> (\<exists>t. out = Some t \<and> proc_output os p = Some t)"
  using assms
  by (cases "p_child p")
     (auto simp: command_failed_def raised_def child_error_def proc_output_def child_text_def
        split: option.splits if_splits)

lemma command_failed_raised:
  "command_failed os p \<Longrightarrow> \<exists>rc cmd out err. raised os p = Some (CalledProcessError rc cmd out err)"
  by (auto simp: command_failed_def split: option.splits error.splits)

lemma proc_kinds:
  "succeeded os p \<Longrightarrow> \<not> command_failed os p"
  "succeeded os p \<Longrightarrow> \<not> not_started p"
  "not_started p \<Longrightarrow> \<not> command_failed os p"
  "not_started p \<Longrightarrow> \<exists>n. p_child p = SpawnError n \<and> raised os p = Some (OSError n)"
  by (auto simp: succeeded_def command_failed_def not_started_def raised_def child_error_def
      split: child.splits option.splits if_splits error.splits)

text \<open>
  What either flow does, by what the last child started raised: nothing (success is
  reported), \<^verbatim>\<open>CalledProcessError\<close> (the failure is reported), or anything else (the
  exception leaves the flow, the hourglass stays).
\<close>

lemma flow_cases:
  assumes run: "guarded msg err_name
                  (steps_then_report os cfg msg pn bn action ok_name s0) = (r, s')"
    and s0: "spawned s0 = spawned s" "bot s0 = bot s @ [AddReaction msg ''hourglass'']"
            "world s0 = world s"
  shows "spawned s' = spawned s @ new_procs s s' \<and> os_environ s' = os_environ s0
       \<and> flow_history os (os_environ s0) (REPOS_ROOT cfg @ pn) bn action (world s)
            (new_procs s s') (world s')
       \<and> (succeeded os (last (new_procs s s')) \<longrightarrow>
             length (new_procs s s') = 5
             \<and> (\<exists>t. proc_output os (last (new_procs s s')) = Some t
                  \<and> r = Inr (Some (StreamRequest (frm msg) t ok_name))
                  \<and> new_events s s' =
                      [AddReaction msg ''hourglass'', RemoveReaction msg ''hourglass'',
                       AddReaction msg ''white_check_mark'',
                       StreamRequest (frm msg) t ok_name]))
       \<and> (command_failed os (last (new_procs s s')) \<longrightarrow>
             r = Inr None
             \<and> (\<exists>t. proc_output os (last (new_procs s s')) = Some t
                  \<and> new_events s s' =
                      [AddReaction msg ''hourglass'', RemoveReaction msg ''hourglass'',
                       AddReaction msg ''x'',
                       StreamRequest (frm msg) t err_name]))
       \<and> (\<not> succeeded os (last (new_procs s s'))
            \<and> \<not> command_failed os (last (new_procs s s')) \<longrightarrow>
             (\<exists>e. raised os (last (new_procs s s')) = Some e \<and> r = Inl e)
             \<and> new_events s s' = [AddReaction msg ''hourglass''])"
proof -
  obtain r1 s1 where steps: "steps_then_report os cfg msg pn bn action ok_name s0 = (r1, s1)"
    by (cases "steps_then_report os cfg msg pn bn action ok_name s0")
  from steps_then_report_traced [OF steps] obtain ps where
    ps: "spawned s1 = spawned s0 @ ps" "os_environ s1 = os_environ s0"
        "flow_history os (os_environ s0) (REPOS_ROOT cfg @ pn) bn action (world s0) ps (world s1)"
    and res: "case r1 of
                Inl e \<Rightarrow> raised os (last ps) = Some e \<and> bot s1 = bot s0
              | Inr v \<Rightarrow>
                  list_all (succeeded os) ps \<and> length ps = 5
                  \<and> (\<exists>t. proc_output os (last ps) = Some t
                       \<and> v = Some (StreamRequest (frm msg) t ok_name)
                       \<and> bot s1 = bot s0 @ [RemoveReaction msg ''hourglass'',
                                            AddReaction msg ''white_check_mark'',
                                            StreamRequest (frm msg) t ok_name])"
    by blast
  from ps(3) have ne: "ps \<noteq> []" by (simp add: flow_history_def)
  have ev: "new_events s t = AddReaction msg ''hourglass'' # evs" if "bot t = bot s0 @ evs"
    for t evs
    using that s0(2) by (simp add: new_events_def)
  show ?thesis
  proof (cases r1)
    case (Inr v)
    with run steps have done0: "r = Inr v" "s' = s1"
      by (auto simp: guarded_def)
    from Inr res obtain t where
      ok: "list_all (succeeded os) ps" "length ps = 5" "proc_output os (last ps) = Some t"
          "v = Some (StreamRequest (frm msg) t ok_name)"
          "bot s1 = bot s0 @ [RemoveReaction msg ''hourglass'',
                             AddReaction msg ''white_check_mark'',
                             StreamRequest (frm msg) t ok_name]"
      by auto
    from ok(1) ne have last: "succeeded os (last ps)"
      by (simp add: list_all_iff)
    have new: "new_procs s s' = ps"
      using ps(1) s0(1) done0 by (simp add: new_procs_def)
    from ps done0 s0 ok last ev [OF ok(5)] show ?thesis
      unfolding new by (auto dest: proc_kinds)
  next
    case (Inl e)
    with res have e: "raised os (last ps) = Some e" and bot1: "bot s1 = bot s0"
      by simp_all
    from e have nok: "\<not> succeeded os (last ps)"
      by (simp add: succeeded_def)
    show ?thesis
    proof (cases "command_failed os (last ps)")
      case True
      from command_failed_raised [OF True] e
      obtain rc cmd out err where cpe: "e = CalledProcessError rc cmd out err"
        by auto
      with e raised_command_failed obtain t where
        t: "out = Some t" "proc_output os (last ps) = Some t"
        by blast
      with run steps Inl cpe have "report_failure msg (Some t) err_name s1 = (r, s')"
        by (auto simp: guarded_def)
      from report_failure_effect [OF this] bot1 have
        fin: "r = Inr None" "spawned s' = spawned s1" "os_environ s' = os_environ s1"
          "world s' = world s1"
          "bot s' = bot s0 @ [RemoveReaction msg ''hourglass'', AddReaction msg ''x'',
                             StreamRequest (frm msg) t err_name]"
        by simp_all
      have new: "new_procs s s' = ps"
        using ps(1) s0(1) fin(2) by (simp add: new_procs_def)
      from ps fin s0 t True nok ev [OF fin(5)] show ?thesis
        unfolding new by auto
    next
      case False
      with e run steps Inl have done0: "r = Inl e" "s' = s1"
        by (auto simp: guarded_def command_failed_def split: error.splits)
      have new: "new_procs s s' = ps"
        using ps(1) s0(1) done0 by (simp add: new_procs_def)
      from bot1 done0 have "bot s' = bot s0 @ []" by simp
      from ps done0 s0 e False nok ev [OF this] show ?thesis
        unfolding new by auto
    qed
  qed
qed

lemma fastlane_env_cases:
  assumes "fastlane_env os cfg msg pn bn s = (r, s')"
  shows "spawned s' = spawned s @ new_procs s s' \<and> os_environ s' = os_environ s
       \<and> flow_history os (os_environ s) (REPOS_ROOT cfg @ pn) bn [''fastlane'', ''env'']
            (world s) (new_procs s s') (world s')
       \<and> (succeeded os (last (new_procs s s')) \<longrightarrow>
             length (new_procs s s') = 5
             \<and> (\<exists>t. proc_output os (last (new_procs s s')) = Some t
                  \<and> r = Inr (Some (StreamRequest (frm msg) t ''response-env.txt''))
                  \<and> new_events s s' =
                      [AddReaction msg ''hourglass'', RemoveReaction msg ''hourglass'',
                       AddReaction msg ''white_check_mark'',
                       StreamRequest (frm msg) t ''response-env.txt'']))
       \<and> (command_failed os (last (new_procs s s')) \<longrightarrow>
             r = Inr None
             \<and> (\<exists>t. proc_output os (last (new_procs s s')) = Some t
                  \<and> new_events s s' =
                      [AddReaction msg ''hourglass'', RemoveReaction msg ''hourglass'',
                       AddReaction msg ''x'',
                       StreamRequest (frm msg) t ''error-env.txt'']))
       \<and> (\<not> succeeded os (last (new_procs s s'))
            \<and> \<not> command_failed os (last (new_procs s s')) \<longrightarrow>
             (\<exists>e. raised os (last (new_procs s s')) = Some e \<and> r = Inl e)
             \<and> new_events s s' = [AddReaction msg ''hourglass''])"
proof -
  let ?s0 = "add_reaction msg ''hourglass'' s"
  have s0: "spawned ?s0 = spawned s" "bot ?s0 = bot s @ [AddReaction msg ''hourglass'']"
    "world ?s0 = world s" "os_environ ?s0 = os_environ s"
    by (simp_all add: add_reaction_def)
  from flow_cases [OF assms [unfolded fastlane_env_eq] s0(1,2,3)] show ?thesis
    unfolding s0(4) .
qed

lemma fastlane_cases:
  assumes "fastlane os cfg msg pn environment bn s = (r, s')"
  shows "spawned s' = spawned s @ new_procs s s'
       \<and> os_environ s' = (os_environ s)(''ENV'' \<mapsto> environment)
       \<and> flow_history os ((os_environ s)(''ENV'' \<mapsto> environment)) (REPOS_ROOT cfg @ pn) bn
            [''fastlane'', ''deploy''] (world s) (new_procs s s') (world s')
       \<and> (succeeded os (last (new_procs s s')) \<longrightarrow>
             length (new_procs s s') = 5
             \<and> (\<exists>t. proc_output os (last (new_procs s s')) = Some t
                  \<and> r = Inr (Some (StreamRequest (frm msg) t
                                     (''response-'' @ environment @ ''.txt'')))
                  \<and> new_events s s' =
                      [AddReaction msg ''hourglass'', RemoveReaction msg ''hourglass'',
                       AddReaction msg ''white_check_mark'',
                       StreamRequest (frm msg) t (''response-'' @ environment @ ''.txt'')]))
       \<and> (command_failed os (last (new_procs s s')) \<longrightarrow>
             r = Inr None
             \<and> (\<exists>t. proc_output os (last (new_procs s s')) = Some t
                  \<and> new_events s s' =
                      [AddReaction msg ''hourglass'', RemoveReaction msg ''hourglass'',
                       AddReaction msg ''x'',
                       StreamRequest (frm msg) t (''error-'' @ environment @ ''.txt'')]))
       \<and> (\<not> succeeded os (last (new_procs s s'))
            \<and> \<not> command_failed os (last (new_procs s s')) \<longrightarrow>
             (\<exists>e. raised os (last (new_procs s s')) = Some e \<and> r = Inl e)
             \<and> new_events s s' = [AddReaction msg ''hourglass''])"
proof -
  let ?s0 = "add_reaction msg ''hourglass''
               (s\<lparr>os_environ := (os_environ s)(''ENV'' \<mapsto> environment)\<rparr>)"
  have s0: "spawned ?s0 = spawned s" "bot ?s0 = bot s @ [AddReaction msg ''hourglass'']"
    "world ?s0 = world s" "os_environ ?s0 = (os_environ s)(''ENV'' \<mapsto> environment)"
    by (simp_all add: add_reaction_def)
  from flow_cases [OF assms [unfolded fastlane_eq] s0(1,2,3)] show ?thesis
    unfolding s0(4) .
qed

lemma failing_is_last:
  assumes "flow_history os env root b action w ps w'" and "p \<in> set ps"
    and "\<not> succeeded os p"
  shows "p = last ps"
proof -
  from assms(1) have ne: "ps \<noteq> []" and but: "list_all (succeeded os) (butlast ps)"
    by (simp_all add: flow_history_def)
  from ne have "ps = butlast ps @ [last ps]" by simp
  then have "set ps = set (butlast ps) \<union> {last ps}"
    by (metis list.simps(15) set_append empty_set)
  with but assms(2,3) show ?thesis
    by (auto simp: list_all_iff)
qed


lemmas model_defs =
  fastlane_env_def fastlane_env_try_def fastlane_def fastlane_try_def
  get_project_root_def fetch_branch_from_origin_def find_fastlane_directory_def find_argv_def
  install_bundle_def check_fastlane_env_def build_fastlane_def run_subprocess_unfold
  report_success_def report_failure_def add_reaction_def remove_reaction_def
  send_stream_request_def log_exception_def str_encode_def
  child_error_def child_text_def decoded_def raised_def proc_output_def succeeded_def
  command_failed_def not_started_def
  abspath_def isabs_def normpath_def initial_slashes_def norm_step_def path_join_def
  sep_def pardir_def new_procs_def new_events_def Let_def nl_def

text \<open>
  C5, as stated, fails: a step can fail without \<^verbatim>\<open>CalledProcessError\<close>. For a project
  name that has no clone, \<^verbatim>\<open>git fetch\<close> cannot be started in the missing directory,
  \<^verbatim>\<open>OSError\<close> leaves either flow, and the only signal is the hourglass.
\<close>

theorem step_failure_not_reported:
  "fst (fastlane_env sample_os sample_cfg sample_msg ''nope'' ''main'' ready)
     = Inl (OSError ENOENT)
   \<and> new_events ready (snd (fastlane_env sample_os sample_cfg sample_msg ''nope'' ''main'' ready))
     = [AddReaction sample_msg ''hourglass'']
   \<and> fst (fastlane sample_os sample_cfg sample_msg ''nope'' ''staging'' ''main'' ready)
     = Inl (OSError ENOENT)
   \<and> new_events ready
        (snd (fastlane sample_os sample_cfg sample_msg ''nope'' ''staging'' ''main'' ready))
     = [AddReaction sample_msg ''hourglass'']"
  by (simp add: sample_defs model_defs)

text \<open>
  C5, amended. For every invocation of either flow in which a step fails with
  \<^verbatim>\<open>CalledProcessError\<close> (some child started by the flow exited with a non-zero status
  and its output decodes): that child is the last one started; the children are a
  genuine run of an initial part of the commands of the flow; the flow returns normally;
  and after the hourglass it emits exactly the removal of the hourglass, the reaction
  \<^verbatim>\<open>x\<close> and one attachment with the captured output of the failed child, named
  \<^verbatim>\<open>error-env.txt\<close> or \<^verbatim>\<open>error-<environment>.txt\<close>; no success signal.
\<close>

theorem command_failure_is_reported:
  "(fastlane_env os cfg msg project_name branch_name s = (r, s')
      \<and> (\<exists>p\<in>set (new_procs s s'). command_failed os p)
    \<longrightarrow> r = Inr None \<and> command_failed os (last (new_procs s s'))
        \<and> flow_history os (os_environ s) (REPOS_ROOT cfg @ project_name) branch_name
             [''fastlane'', ''env''] (world s) (new_procs s s') (world s')
        \<and> (\<exists>t. proc_output os (last (new_procs s s')) = Some t
             \<and> new_events s s' =
                 [AddReaction msg ''hourglass'', RemoveReaction msg ''hourglass'',
                  AddReaction msg ''x'',
                  StreamRequest (frm msg) t ''error-env.txt'']))
   \<and> (fastlane os cfg msg project_name environment branch_name s = (r, s')
      \<and> (\<exists>p\<in>set (new_procs s s'). command_failed os p)
    \<longrightarrow> r = Inr None \<and> command_failed os (last (new_procs s s'))
        \<and> flow_history os ((os_environ s)(''ENV'' \<mapsto> environment))
             (REPOS_ROOT cfg @ project_name) branch_name
             [''fastlane'', ''deploy''] (world s) (new_procs s s') (world s')
        \<and> (\<exists>t. proc_output os (last (new_procs s s')) = Some t
             \<and> new_events s s' =
                 [AddReaction msg ''hourglass'', RemoveReaction msg ''hourglass'',
                  AddReaction msg ''x'',
                  StreamRequest (frm msg) t (''error-'' @ environment @ ''.txt'')]))"
proof (rule conjI; rule impI; elim conjE bexE)
  fix p
  assume run: "fastlane_env os cfg msg project_name branch_name s = (r, s')"
    and p: "p \<in> set (new_procs s s')" "command_failed os p"
  note c = fastlane_env_cases [OF run]
  from c have hist: "flow_history os (os_environ s) (REPOS_ROOT cfg @ project_name) branch_name
             [''fastlane'', ''env''] (world s) (new_procs s s') (world s')"
    by blast
  from p(2) have "\<not> succeeded os p" by (auto dest: proc_kinds)
  from failing_is_last [OF hist p(1) this] p(2)
  have last: "command_failed os (last (new_procs s s'))" by simp
  with c hist
  show "r = Inr None \<and> command_failed os (last (new_procs s s'))
        \<and> flow_history os (os_environ s) (REPOS_ROOT cfg @ project_name) branch_name
             [''fastlane'', ''env''] (world s) (new_procs s s') (world s')
        \<and> (\<exists>t. proc_output os (last (new_procs s s')) = Some t
             \<and> new_events s s' =
                 [AddReaction msg ''hourglass'', RemoveReaction msg ''hourglass'',
                  AddReaction msg ''x'',
                  StreamRequest (frm msg) t ''error-env.txt''])"
    by blast
next
  fix p
  assume run: "fastlane os cfg msg project_name environment branch_name s = (r, s')"
    and p: "p \<in> set (new_procs s s')" "command_failed os p"
  note c = fastlane_cases [OF run]
  from c have hist: "flow_history os ((os_environ s)(''ENV'' \<mapsto> environment))
             (REPOS_ROOT cfg @ project_name) branch_name
             [''fastlane'', ''deploy''] (world s) (new_procs s s') (world s')"
    by blast
  from p(2) have "\<not> succeeded os p" by (auto dest: proc_kinds)
  from failing_is_last [OF hist p(1) this] p(2)
  have last: "command_failed os (last (new_procs s s'))" by simp
  with c hist
  show "r = Inr None \<and> command_failed os (last (new_procs s s'))
        \<and> flow_history os ((os_environ s)(''ENV'' \<mapsto> environment))
             (REPOS_ROOT cfg @ project_name) branch_name
             [''fastlane'', ''deploy''] (world s) (new_procs s s') (world s')
        \<and> (\<exists>t. proc_output os (last (new_procs s s')) = Some t
             \<and> new_events s s' =
                 [AddReaction msg ''hourglass'', RemoveReaction msg ''hourglass'',
                  AddReaction msg ''x'',
                  StreamRequest (frm msg) t (''error-'' @ environment @ ''.txt'')])"
    by blast
qed

theorem command_failure_is_reported_witness:
  "map (command_failed sample_os) (new_procs ready
        (snd (fastlane_env sample_os sample_cfg sample_msg ''app'' ''nobranch'' ready)))
     = [False, True]
   \<and> fst (fastlane_env sample_os sample_cfg sample_msg ''app'' ''nobranch'' ready) = Inr None
   \<and> new_events ready
        (snd (fastlane_env sample_os sample_cfg sample_msg ''app'' ''nobranch'' ready))
     = [AddReaction sample_msg ''hourglass'', RemoveReaction sample_msg ''hourglass'',
        AddReaction sample_msg ''x'',
        StreamRequest ''alice'' (''fatal: not a commit'' @ nl) ''error-env.txt'']
   \<and> map (command_failed sample_os) (new_procs ready
        (snd (fastlane sample_os sample_cfg sample_msg ''app'' ''prod'' ''main'' ready)))
     = [False, False, False, False, True]
   \<and> fst (fastlane sample_os sample_cfg sample_msg ''app'' ''prod'' ''main'' ready) = Inr None
   \<and> new_events ready
        (snd (fastlane sample_os sample_cfg sample_msg ''app'' ''prod'' ''main'' ready))
     = [AddReaction sample_msg ''hourglass'', RemoveReaction sample_msg ''hourglass'',
        AddReaction sample_msg ''x'',
        StreamRequest ''alice'' (''building'' @ nl @ ''no such lane'' @ nl) ''error-prod.txt'']"
proof -
  let ?run = "fastlane_env sample_os sample_cfg sample_msg ''app'' ''nobranch'' ready"
  let ?dep = "fastlane sample_os sample_cfg sample_msg ''app'' ''prod'' ''main'' ready"
  have each: "map (command_failed sample_os) (new_procs ready (snd ?run)) = [False, True]"
    by (simp add: sample_defs model_defs)
  have bad: "\<exists>p\<in>set (new_procs ready (snd ?run)). command_failed sample_os p"
    by (simp add: sample_defs model_defs)
  have out: "proc_output sample_os (last (new_procs ready (snd ?run)))
               = Some (''fatal: not a commit'' @ nl)"
    by (simp add: sample_defs model_defs)
  have each2: "map (command_failed sample_os) (new_procs ready (snd ?dep))
                 = [False, False, False, False, True]"
    by (simp add: sample_defs model_defs)
  have bad2: "\<exists>p\<in>set (new_procs ready (snd ?dep)). command_failed sample_os p"
    by (simp add: sample_defs model_defs)
  have out2: "proc_output sample_os (last (new_procs ready (snd ?dep)))
                = Some (''building'' @ nl @ ''no such lane'' @ nl)"
    by (simp add: sample_defs model_defs)
  have "?run = (fst ?run, snd ?run)" by simp
  with command_failure_is_reported
         [of sample_os sample_cfg sample_msg "''app''" "''nobranch''" ready "fst ?run" "snd ?run"]
       bad out
  have one: "fst ?run = Inr None
    \<and> new_events ready (snd ?run)
     = [AddReaction sample_msg ''hourglass'', RemoveReaction sample_msg ''hourglass'',
        AddReaction sample_msg ''x'',
        StreamRequest ''alice'' (''fatal: not a commit'' @ nl) ''error-env.txt'']"
    by (auto simp: sample_msg_def)
  have "?dep = (fst ?dep, snd ?dep)" by simp
  with command_failure_is_reported
         [of sample_os sample_cfg sample_msg "''app''" "''main''" ready "fst ?dep" "snd ?dep"
             "''prod''"]
       bad2 out2
  have two: "fst ?dep = Inr None
    \<and> new_events ready (snd ?dep)
     = [AddReaction sample_msg ''hourglass'', RemoveReaction sample_msg ''hourglass'',
        AddReaction sample_msg ''x'',
        StreamRequest ''alice'' (''building'' @ nl @ ''no such lane'' @ nl) ''error-prod.txt'']"
    by (auto simp: sample_msg_def)
  from each each2 one two show ?thesis
    by (intro conjI) simp_all
qed



text \<open>
  C9. For every invocation of either flow in which a child cannot be started (a failure
  of a step that is not \<^verbatim>\<open>CalledProcessError\<close>): the \<^verbatim>\<open>OSError\<close> is the result of the
  flow, and the hourglass is the only thing the flow emits: it is not removed, no
  terminal reaction is added and no attachment is sent. The same holds for every
  exception of a step that is not \<^verbatim>\<open>CalledProcessError\<close>, \<^verbatim>\<open>UnicodeDecodeError\<close> for
  output that does not decode included: the child that raised is the last of a genuine
  run of an initial part of the commands of the flow, and its exception is the result.
\<close>

theorem other_failure_propagates:
  "(fastlane_env os cfg msg project_name branch_name s = (r, s')
      \<and> (\<exists>p\<in>set (new_procs s s'). not_started p)
    \<longrightarrow> (\<exists>n. p_child (last (new_procs s s')) = SpawnError n \<and> r = Inl (OSError n))
        \<and> new_events s s' = [AddReaction msg ''hourglass''])
   \<and> (fastlane os cfg msg project_name environment branch_name s = (r, s')
      \<and> (\<exists>p\<in>set (new_procs s s'). not_started p)
    \<longrightarrow> (\<exists>n. p_child (last (new_procs s s')) = SpawnError n \<and> r = Inl (OSError n))
        \<and> new_events s s' = [AddReaction msg ''hourglass''])
   \<and> (fastlane_env os cfg msg project_name branch_name s = (r, s')
      \<and> (\<exists>p\<in>set (new_procs s s'). \<not> succeeded os p \<and> \<not> command_failed os p)
    \<longrightarrow> (\<exists>e. raised os (last (new_procs s s')) = Some e \<and> r = Inl e)
        \<and> new_events s s' = [AddReaction msg ''hourglass'']
        \<and> flow_history os (os_environ s) (REPOS_ROOT cfg @ project_name) branch_name
             [''fastlane'', ''env''] (world s) (new_procs s s') (world s'))
   \<and> (fastlane os cfg msg project_name environment branch_name s = (r, s')
      \<and> (\<exists>p\<in>set (new_procs s s'). \<not> succeeded os p \<and> \<not> command_failed os p)
    \<longrightarrow> (\<exists>e. raised os (last (new_procs s s')) = Some e \<and> r = Inl e)
        \<and> new_events s s' = [AddReaction msg ''hourglass'']
        \<and> flow_history os ((os_environ s)(''ENV'' \<mapsto> environment))
             (REPOS_ROOT cfg @ project_name) branch_name
             [''fastlane'', ''deploy''] (world s) (new_procs s s') (world s'))"
proof -
  have inspect: "(\<exists>e. raised os (last (new_procs s s')) = Some e \<and> r = Inl e)
        \<and> new_events s s' = [AddReaction msg ''hourglass'']
        \<and> flow_history os (os_environ s) (REPOS_ROOT cfg @ project_name) branch_name
             [''fastlane'', ''env''] (world s) (new_procs s s') (world s')
        \<and> p = last (new_procs s s')"
    if run: "fastlane_env os cfg msg project_name branch_name s = (r, s')"
      and p: "p \<in> set (new_procs s s')" "\<not> succeeded os p" "\<not> command_failed os p"
    for p
  proof -
    note c = fastlane_env_cases [OF run]
    from c have hist: "flow_history os (os_environ s) (REPOS_ROOT cfg @ project_name)
             branch_name [''fastlane'', ''env''] (world s) (new_procs s s') (world s')"
      by blast
    from failing_is_last [OF hist p(1,2)] have l: "p = last (new_procs s s')" .
    with p c hist show ?thesis by blast
  qed
  have deploy: "(\<exists>e. raised os (last (new_procs s s')) = Some e \<and> r = Inl e)
        \<and> new_events s s' = [AddReaction msg ''hourglass'']
        \<and> flow_history os ((os_environ s)(''ENV'' \<mapsto> environment))
             (REPOS_ROOT cfg @ project_name) branch_name
             [''fastlane'', ''deploy''] (world s) (new_procs s s') (world s')
        \<and> p = last (new_procs s s')"
    if run: "fastlane os cfg msg project_name environment branch_name s = (r, s')"
      and p: "p \<in> set (new_procs s s')" "\<not> succeeded os p" "\<not> command_failed os p"
    for p
  proof -
    note c = fastlane_cases [OF run]
    from c have hist: "flow_history os ((os_environ s)(''ENV'' \<mapsto> environment))
             (REPOS_ROOT cfg @ project_name) branch_name
             [''fastlane'', ''deploy''] (world s) (new_procs s s') (world s')"
      by blast
    from failing_is_last [OF hist p(1,2)] have l: "p = last (new_procs s s')" .
    with p c hist show ?thesis by blast
  qed
  have started: "(\<exists>n. p_child q = SpawnError n \<and> e = OSError n)"
    if "not_started q" "raised os q = Some e" for q e
    using that proc_kinds(4) [of q os] by auto
  show ?thesis
  proof (intro conjI impI; elim conjE bexE)
    fix p
    assume run: "fastlane_env os cfg msg project_name branch_name s = (r, s')"
      and p: "p \<in> set (new_procs s s')" "not_started p"
    from p(2) have "\<not> succeeded os p" "\<not> command_failed os p"
      by (auto dest: proc_kinds)
    from inspect [OF run p(1) this] p(2) obtain e where
      e: "raised os (last (new_procs s s')) = Some e" "r = Inl e"
         "new_events s s' = [AddReaction msg ''hourglass'']"
         "not_started (last (new_procs s s'))"
      by auto
    from started [OF e(4) e(1)] e(2)
    show "\<exists>n. p_child (last (new_procs s s')) = SpawnError n \<and> r = Inl (OSError n)"
      by auto
    from e(3) show "new_events s s' = [AddReaction msg ''hourglass'']" .
  next
    fix p
    assume run: "fastlane os cfg msg project_name environment branch_name s = (r, s')"
      and p: "p \<in> set (new_procs s s')" "not_started p"
    from p(2) have "\<not> succeeded os p" "\<not> command_failed os p"
      by (auto dest: proc_kinds)
    from deploy [OF run p(1) this] p(2) obtain e where
      e: "raised os (last (new_procs s s')) = Some e" "r = Inl e"
         "new_events s s' = [AddReaction msg ''hourglass'']"
         "not_started (last (new_procs s s'))"
      by auto
    from started [OF e(4) e(1)] e(2)
    show "\<exists>n. p_child (last (new_procs s s')) = SpawnError n \<and> r = Inl (OSError n)"
      by auto
    from e(3) show "new_events s s' = [AddReaction msg ''hourglass'']" .
  next
    fix p
    assume run: "fastlane_env os cfg msg project_name branch_name s = (r, s')"
      and p: "p \<in> set (new_procs s s')" "\<not> succeeded os p" "\<not> command_failed os p"
    note i = inspect [OF run p]
    from i show "\<exists>e. raised os (last (new_procs s s')) = Some e \<and> r = Inl e" by blast
    from i show "new_events s s' = [AddReaction msg ''hourglass'']" by blast
    from i show "flow_history os (os_environ s) (REPOS_ROOT cfg @ project_name) branch_name
             [''fastlane'', ''env''] (world s) (new_procs s s') (world s')" by blast
  next
    fix p
    assume run: "fastlane os cfg msg project_name environment branch_name s = (r, s')"
      and p: "p \<in> set (new_procs s s')" "\<not> succeeded os p" "\<not> command_failed os p"
    note i = deploy [OF run p]
    from i show "\<exists>e. raised os (last (new_procs s s')) = Some e \<and> r = Inl e" by blast
    from i show "new_events s s' = [AddReaction msg ''hourglass'']" by blast
    from i show "flow_history os ((os_environ s)(''ENV'' \<mapsto> environment))
             (REPOS_ROOT cfg @ project_name) branch_name
             [''fastlane'', ''deploy''] (world s) (new_procs s s') (world s')" by blast
  qed
qed

theorem other_failure_propagates_witness:
  "map not_started (new_procs ready
        (snd (fastlane_env sample_os sample_cfg sample_msg ''unknown'' ''main'' ready)))
     = [True]
   \<and> fst (fastlane_env sample_os sample_cfg sample_msg ''unknown'' ''main'' ready)
     = Inl (OSError ENOENT)
   \<and> new_events ready
        (snd (fastlane_env sample_os sample_cfg sample_msg ''unknown'' ''main'' ready))
     = [AddReaction sample_msg ''hourglass'']
   \<and> map not_started (new_procs ready
        (snd (fastlane sample_os sample_cfg sample_msg ''unknown'' ''staging'' ''main'' ready)))
     = [True]
   \<and> fst (fastlane sample_os sample_cfg sample_msg ''unknown'' ''staging'' ''main'' ready)
     = Inl (OSError ENOENT)
   \<and> new_events ready
        (snd (fastlane sample_os sample_cfg sample_msg ''unknown'' ''staging'' ''main'' ready))
     = [AddReaction sample_msg ''hourglass'']
   \<and> map (raised sample_os) (new_procs ready
        (snd (fastlane_env sample_os sample_cfg sample_msg ''legacy'' ''main'' ready)))
     = [None, None, None, None, Some UnicodeDecodeError]
   \<and> fst (fastlane_env sample_os sample_cfg sample_msg ''legacy'' ''main'' ready)
     = Inl UnicodeDecodeError
   \<and> new_events ready
        (snd (fastlane_env sample_os sample_cfg sample_msg ''legacy'' ''main'' ready))
     = [AddReaction sample_msg ''hourglass'']"
proof -
  let ?run = "fastlane_env sample_os sample_cfg sample_msg ''unknown'' ''main'' ready"
  let ?dep = "fastlane sample_os sample_cfg sample_msg ''unknown'' ''staging'' ''main'' ready"
  let ?leg = "fastlane_env sample_os sample_cfg sample_msg ''legacy'' ''main'' ready"
  have each: "map not_started (new_procs ready (snd ?run)) = [True]"
    by (simp add: sample_defs model_defs)
  have bad: "\<exists>p\<in>set (new_procs ready (snd ?run)). not_started p"
    by (simp add: sample_defs model_defs)
  have child: "p_child (last (new_procs ready (snd ?run))) = SpawnError ENOENT"
    by (simp add: sample_defs model_defs)
  have each2: "map not_started (new_procs ready (snd ?dep)) = [True]"
    by (simp add: sample_defs model_defs)
  have bad2: "\<exists>p\<in>set (new_procs ready (snd ?dep)). not_started p"
    by (simp add: sample_defs model_defs)
  have child2: "p_child (last (new_procs ready (snd ?dep))) = SpawnError ENOENT"
    by (simp add: sample_defs model_defs)
  have each3: "map (raised sample_os) (new_procs ready (snd ?leg))
                 = [None, None, None, None, Some UnicodeDecodeError]"
    by (simp add: sample_defs model_defs)
  have bad3: "\<exists>p\<in>set (new_procs ready (snd ?leg)).
                \<not> succeeded sample_os p \<and> \<not> command_failed sample_os p"
    by (simp add: sample_defs model_defs)
  have last3: "raised sample_os (last (new_procs ready (snd ?leg))) = Some UnicodeDecodeError"
    by (simp add: sample_defs model_defs)
  have "?run = (fst ?run, snd ?run)" by simp
  with other_failure_propagates
         [of sample_os sample_cfg sample_msg "''unknown''" "''main''" ready "fst ?run" "snd ?run"]
       bad child
  have one: "fst ?run = Inl (OSError ENOENT)
    \<and> new_events ready (snd ?run) = [AddReaction sample_msg ''hourglass'']"
    by auto
  have "?dep = (fst ?dep, snd ?dep)" by simp
  with other_failure_propagates
         [of sample_os sample_cfg sample_msg "''unknown''" "''main''" ready "fst ?dep" "snd ?dep"
             "''staging''"]
       bad2 child2
  have two: "fst ?dep = Inl (OSError ENOENT)
    \<and> new_events ready (snd ?dep) = [AddReaction sample_msg ''hourglass'']"
    by auto
  have "?leg = (fst ?leg, snd ?leg)" by simp
  with other_failure_propagates
         [of sample_os sample_cfg sample_msg "''legacy''" "''main''" ready "fst ?leg" "snd ?leg"]
       bad3 last3
  have three: "fst ?leg = Inl UnicodeDecodeError
    \<and> new_events ready (snd ?leg) = [AddReaction sample_msg ''hourglass'']"
    by auto
  from each each2 each3 one two three show ?thesis
    by (intro conjI) simp_all
qed

subsection \<open>The process environment\<close>

text \<open>
  C7, as stated, fails: the deploy flow sets \<^verbatim>\<open>ENV\<close> and never unsets or restores it.
  In the sample world \<^verbatim>\<open>ENV\<close> is unset at first; after a deploy of \<^verbatim>\<open>app\<close> to
  \<^verbatim>\<open>staging\<close> it is \<^verbatim>\<open>staging\<close>, and the inspect flow for the other project, \<^verbatim>\<open>site\<close>,
  which reports \<^verbatim>\<open>ENV=\<close> when run alone, reports \<^verbatim>\<open>ENV=staging\<close> when run next.
\<close>

theorem deploy_environment_stays:
  "os_environ ready ''ENV'' = None
   \<and> os_environ (snd (fastlane sample_os sample_cfg sample_msg ''app'' ''staging'' ''main'' ready))
        ''ENV'' = Some ''staging''
   \<and> fst (fastlane_env sample_os sample_cfg sample_msg ''site'' ''main'' ready)
     = Inr (Some (StreamRequest ''alice'' (''checking'' @ nl @ ''ENV='' @ nl) ''response-env.txt''))
   \<and> fst (fastlane_env sample_os sample_cfg sample_msg ''site'' ''main''
            (snd (fastlane sample_os sample_cfg sample_msg ''app'' ''staging'' ''main'' ready)))
     = Inr (Some (StreamRequest ''alice'' (''checking'' @ nl @ ''ENV=staging'' @ nl)
                    ''response-env.txt''))"
  by (simp add: sample_defs model_defs)

text \<open>
  C7, amended. Running a deploy flow sets \<^verbatim>\<open>ENV\<close> to the environment before its first
  child is started and leaves it set when the flow ends, whatever the outcome; every
  other variable is as before. The inspect flow leaves the process environment as it
  finds it, so every child of an inspect flow that runs next, for any project, is
  started with \<^verbatim>\<open>ENV\<close> still naming the environment of the earlier deploy flow.
\<close>

theorem deploy_environment_persists:
  assumes "fastlane os cfg msg project_name environment branch_name s = (r, s1)"
    and "fastlane_env os cfg msg2 project_name2 branch_name2 s1 = (r2, s2)"
  shows "os_environ s1 = (os_environ s)(''ENV'' \<mapsto> environment)
       \<and> list_all (\<lambda>p. p_env p ''ENV'' = Some environment) (new_procs s s1)
       \<and> os_environ s2 = os_environ s1
       \<and> new_procs s1 s2 \<noteq> []
       \<and> list_all (\<lambda>p. p_env p ''ENV'' = Some environment) (new_procs s1 s2)"
proof -
  from fastlane_cases [OF assms(1)] have
    e1: "os_environ s1 = (os_environ s)(''ENV'' \<mapsto> environment)"
    and h1: "flow_history os ((os_environ s)(''ENV'' \<mapsto> environment))
               (REPOS_ROOT cfg @ project_name) branch_name [''fastlane'', ''deploy'']
               (world s) (new_procs s s1) (world s1)"
    by blast+
  from fastlane_env_cases [OF assms(2)] have
    e2: "os_environ s2 = os_environ s1"
    and h2: "flow_history os (os_environ s1) (REPOS_ROOT cfg @ project_name2) branch_name2
               [''fastlane'', ''env''] (world s1) (new_procs s1 s2) (world s2)"
    by blast+
  from h1 have "list_all (\<lambda>p. p_env p ''ENV'' = Some environment) (new_procs s s1)"
    by (auto simp: flow_history_def list_all_iff)
  moreover from h2 e1 have "list_all (\<lambda>p. p_env p ''ENV'' = Some environment) (new_procs s1 s2)"
    by (auto simp: flow_history_def list_all_iff)
  moreover from h2 have "new_procs s1 s2 \<noteq> []"
    by (simp add: flow_history_def)
  ultimately show ?thesis
    using e1 e2 by simp
qed

theorem deploy_environment_persists_witness:
  "os_environ (snd (fastlane sample_os sample_cfg sample_msg ''app'' ''prod'' ''main'' ready))
     = (os_environ ready)(''ENV'' \<mapsto> ''prod'')
   \<and> map (\<lambda>p. p_env p ''ENV'')
        (new_procs (snd (fastlane sample_os sample_cfg sample_msg ''app'' ''prod'' ''main'' ready))
           (snd (fastlane_env sample_os sample_cfg sample_msg ''site'' ''main''
              (snd (fastlane sample_os sample_cfg sample_msg ''app'' ''prod'' ''main'' ready)))))
     = [Some ''prod'', Some ''prod'', Some ''prod'', Some ''prod'', Some ''prod'']"
proof -
  let ?d = "fastlane sample_os sample_cfg sample_msg ''app'' ''prod'' ''main'' ready"
  let ?i = "fastlane_env sample_os sample_cfg sample_msg ''site'' ''main'' (snd ?d)"
  have d: "?d = (fst ?d, snd ?d)" and i: "?i = (fst ?i, snd ?i)" by simp_all
  have len: "length (new_procs (snd ?d) (snd ?i)) = 5"
    by (simp add: sample_defs model_defs)
  from deploy_environment_persists [OF d i]
  have env: "os_environ (snd ?d) = (os_environ ready)(''ENV'' \<mapsto> ''prod'')"
    and all: "list_all (\<lambda>p. p_env p ''ENV'' = Some ''prod'') (new_procs (snd ?d) (snd ?i))"
    by simp_all
  from all have "map (\<lambda>p. p_env p ''ENV'') (new_procs (snd ?d) (snd ?i))
                   = replicate (length (new_procs (snd ?d) (snd ?i))) (Some ''prod'')"
    by (induction "new_procs (snd ?d) (snd ?i)") (auto simp: list_all_iff map_replicate_const
          intro!: replicate_eqI)
  with env len show ?thesis
    by (simp add: numeral_eq_Suc)
qed

text \<open>
  C10. \<^verbatim>\<open>setup_environments\<close> changes the process environment at the four keys
  \<^verbatim>\<open>S3_KEY\<close>, \<^verbatim>\<open>S3_SECRET\<close>, \<^verbatim>\<open>S3_BUCKET\<close> and \<^verbatim>\<open>S3_REGION\<close>, each to its configured
  value; every other variable, set or unset, is as before, and so is the rest of the
  state.
\<close>

theorem setup_environments_four_keys:
  "os_environ (setup_environments cfg s) k =
     (if k = ''S3_KEY'' then Some (S3_KEY cfg)
      else if k = ''S3_SECRET'' then Some (S3_SECRET cfg)
      else if k = ''S3_BUCKET'' then Some (S3_BUCKET cfg)
      else if k = ''S3_REGION'' then Some (S3_REGION cfg)
      else os_environ s k)
   \<and> world (setup_environments cfg s) = world s
   \<and> spawned (setup_environments cfg s) = spawned s
   \<and> bot (setup_environments cfg s) = bot s
   \<and> logged (setup_environments cfg s) = logged s"
  by (simp add: setup_environments_def map_add_def split: option.splits)

theorem setup_environments_four_keys_witness:
  "os_environ (setup_environments sample_cfg fresh) ''S3_BUCKET'' = Some ''bucket''
   \<and> os_environ (setup_environments sample_cfg fresh) ''PATH'' = Some ''/usr/bin''
   \<and> os_environ (setup_environments sample_cfg fresh) ''ENV'' = None"
  using setup_environments_four_keys [of sample_cfg fresh "''S3_BUCKET''"]
        setup_environments_four_keys [of sample_cfg fresh "''PATH''"]
        setup_environments_four_keys [of sample_cfg fresh "''ENV''"]
  by (simp add: sample_cfg_def fresh_def)

subsection \<open>Clones at activation\<close>

lemma clone_missing_all_exist:
  assumes "\<forall>m\<in>set ns. path_exists os (path_join (REPOS_ROOT cfg) m) (world s)"
  shows "clone_missing os cfg ns s = (Inr (), s)"
  using assms by (induction ns) auto

lemma traced_single:
  assumes "traced os s s1 [p]"
  shows "p_env p = os_environ s"
    and "p_child p = fst (spawn os (p_args p) (p_cwd p) (p_env p) (world s))"
    and "world s1 = snd (spawn os (p_args p) (p_cwd p) (p_env p) (world s))"
  using assms by (simp_all add: traced_def)

text \<open>
  The loop, with nothing assumed of the platform: the children are genuine, all in the
  repository root, each a clone of a project whose directory did not exist in the world
  the child was started in, and the loop ends at the first child that raises.
\<close>

lemma clone_missing_history:
  assumes sub: "set ns \<subseteq> set (map fst (projects cfg))"
    and run: "clone_missing os cfg ns s = (r, s')"
  shows "\<exists>ps. traced os s s' ps \<and> follows os ps r
           \<and> list_all (\<lambda>p. p_cwd p = Some (REPOS_ROOT cfg)) ps
           \<and> (\<forall>i<length ps. \<exists>n\<in>set ns.
                 p_args (ps ! i) = clone_of cfg n
                 \<and> \<not> path_exists os (path_join (REPOS_ROOT cfg) n)
                       (replay os (world s) (take i ps)))"
  using sub run
proof (induction ns arbitrary: s)
  case Nil
  then show ?case
    by (intro exI [of _ "[]"]) (auto simp: traced_def follows_def)
next
  case (Cons n rest)
  let ?pj = "path_join (REPOS_ROOT cfg)"
  from Cons.prems have nN: "n \<in> set (map fst (projects cfg))"
    and restN: "set rest \<subseteq> set (map fst (projects cfg))"
    by auto
  show ?case
  proof (cases "path_exists os (?pj n) (world s)")
    case True
    with Cons.prems have "clone_missing os cfg rest s = (r, s')" by simp
    from Cons.IH [OF restN this] obtain ps where
      ps: "traced os s s' ps" "follows os ps r"
          "list_all (\<lambda>p. p_cwd p = Some (REPOS_ROOT cfg)) ps"
          "\<forall>i<length ps. \<exists>n\<in>set rest.
                 p_args (ps ! i) = clone_of cfg n
                 \<and> \<not> path_exists os (?pj n) (replay os (world s) (take i ps))"
      by blast
    from ps(4) have "\<forall>i<length ps. \<exists>m\<in>set (n # rest).
                 p_args (ps ! i) = clone_of cfg m
                 \<and> \<not> path_exists os (?pj m) (replay os (world s) (take i ps))"
      by auto
    with ps(1,2,3) show ?thesis
      by (intro exI [of _ ps]) blast
  next
    case False
    from nN obtain url where url: "map_of (projects cfg) n = Some url"
      by (cases "map_of (projects cfg) n") (auto simp: map_of_eq_None_iff)
    then have cof: "clone_of cfg n = clone_argv url n"
      by (simp add: clone_of_def clone_argv_def)
    obtain r1 s1 where run1:
      "run_subprocess os (clone_argv url n) (Some (REPOS_ROOT cfg)) s = (r1, s1)"
      by (cases "run_subprocess os (clone_argv url n) (Some (REPOS_ROOT cfg)) s")
    from run_subprocess_traced [OF run1] obtain p where
      p: "traced os s s1 [p]" "follows os [p] r1" "p_args p = clone_argv url n"
         "p_cwd p = Some (REPOS_ROOT cfg)"
      by blast
    show ?thesis
    proof (cases r1)
      case (Inl e)
      with Cons.prems False url run1 have res: "r = Inl e" "s' = s1" by auto
      from p(2) Inl have fo: "follows os [p] r"
        unfolding res by (simp add: follows_def)
      from p(3) cof False have "\<forall>i<length [p]. \<exists>m\<in>set (n # rest).
                 p_args ([p] ! i) = clone_of cfg m
                 \<and> \<not> path_exists os (?pj m) (replay os (world s) (take i [p]))"
        by simp
      with p(1,4) fo show ?thesis
        unfolding res by (intro exI [of _ "[p]"]) simp
    next
      case (Inr cp)
      with Cons.prems False url run1 have rest: "clone_missing os cfg rest s1 = (r, s')"
        by auto
      from Inr p(2) have ok: "list_all (succeeded os) [p]" by (simp add: follows_def)
      from Cons.IH [OF restN rest] obtain ps where
        ps: "traced os s1 s' ps" "follows os ps r"
            "list_all (\<lambda>p. p_cwd p = Some (REPOS_ROOT cfg)) ps"
            "\<forall>i<length ps. \<exists>n\<in>set rest.
                 p_args (ps ! i) = clone_of cfg n
                 \<and> \<not> path_exists os (?pj n) (replay os (world s1) (take i ps))"
        by blast
      from traced_follows_append [OF p(1) ok ps(1,2)]
      have tr: "traced os s s' (p # ps)" and fo: "follows os (p # ps) r"
        by simp_all
      from ps(3) p(4) have cw: "list_all (\<lambda>p. p_cwd p = Some (REPOS_ROOT cfg)) (p # ps)"
        by simp
      have ab: "\<forall>i<length (p # ps). \<exists>m\<in>set (n # rest).
                 p_args ((p # ps) ! i) = clone_of cfg m
                 \<and> \<not> path_exists os (?pj m) (replay os (world s) (take i (p # ps)))"
      proof (intro allI impI)
        fix i assume i: "i < length (p # ps)"
        show "\<exists>m\<in>set (n # rest).
                 p_args ((p # ps) ! i) = clone_of cfg m
                 \<and> \<not> path_exists os (?pj m) (replay os (world s) (take i (p # ps)))"
        proof (cases i)
          case 0
          with p(3) cof False show ?thesis by simp
        next
          case (Suc j)
          with i have "j < length ps" by simp
          with ps(4) obtain m where m: "m \<in> set rest" "p_args (ps ! j) = clone_of cfg m"
              "\<not> path_exists os (?pj m) (replay os (world s1) (take j ps))"
            by blast
          from traced_single(3) [OF p(1)]
          have "replay os (world s) (take i (p # ps)) = replay os (world s1) (take j ps)"
            by (simp add: Suc)
          with m Suc show ?thesis by auto
        qed
      qed
      from tr fo cw ab show ?thesis
        by (intro exI [of _ "p # ps"]) blast
    qed
  qed
qed

text \<open>
  The loop on a platform where a successful clone creates the directory of its project
  and of no other: the clones are an initial part of those for the projects whose
  directory was absent at the start.
\<close>

lemma clone_missing_traced:
  assumes cl: "\<forall>n\<in>N. \<forall>url env w ws w'.
        spawn os [''git'', ''clone'', url, n] (Some (REPOS_ROOT cfg)) env w = (Exited 0 ws, w') \<longrightarrow>
        (\<forall>m\<in>N.
           path_exists os (path_join (REPOS_ROOT cfg) m) w'
             = (path_exists os (path_join (REPOS_ROOT cfg) m) w
                \<or> path_join (REPOS_ROOT cfg) m = path_join (REPOS_ROOT cfg) n))"
    and N: "N = set (map fst (projects cfg))"
    and sub: "set ns \<subseteq> N"
    and dist: "distinct (map (path_join (REPOS_ROOT cfg)) ns)"
    and run: "clone_missing os cfg ns s = (r, s')"
  shows "\<exists>ps. traced os s s' ps
           \<and> map p_args ps =
               take (length ps)
                 (map (clone_of cfg)
                    (filter (\<lambda>n. \<not> path_exists os (path_join (REPOS_ROOT cfg) n) (world s)) ns))
           \<and> (r = Inr () \<longrightarrow>
                 map p_args ps =
                   map (clone_of cfg)
                     (filter (\<lambda>n. \<not> path_exists os (path_join (REPOS_ROOT cfg) n) (world s)) ns)
                 \<and> (\<forall>m\<in>N. path_exists os (path_join (REPOS_ROOT cfg) m) (world s')
                       = (path_exists os (path_join (REPOS_ROOT cfg) m) (world s)
                          \<or> path_join (REPOS_ROOT cfg) m \<in> path_join (REPOS_ROOT cfg) ` set ns)))"
  using sub dist run
proof (induction ns arbitrary: s)
  case Nil
  then show ?case
    by (intro exI [of _ "[]"]) (auto simp: traced_def)
next
  case (Cons n rest)
  let ?pj = "path_join (REPOS_ROOT cfg)"
  let ?ex = "\<lambda>m t. path_exists os (?pj m) (world t)"
  from Cons.prems have nN: "n \<in> N" and restN: "set rest \<subseteq> N"
    and drest: "distinct (map ?pj rest)" and nrest: "?pj n \<notin> ?pj ` set rest"
    by auto
  show ?case
  proof (cases "?ex n s")
    case True
    with Cons.prems have "clone_missing os cfg rest s = (r, s')" by simp
    from Cons.IH [OF restN drest this] obtain ps where
      ps: "traced os s s' ps"
          "map p_args ps = take (length ps)
             (map (clone_of cfg) (filter (\<lambda>n. \<not> ?ex n s) rest))"
          "r = Inr () \<longrightarrow>
             map p_args ps = map (clone_of cfg) (filter (\<lambda>n. \<not> ?ex n s) rest)
             \<and> (\<forall>m\<in>N. ?ex m s' = (?ex m s \<or> ?pj m \<in> ?pj ` set rest))"
      by blast
    from ps True show ?thesis
      by (intro exI [of _ ps]) auto
  next
    case False
    from nN N obtain url where url: "map_of (projects cfg) n = Some url"
      by (cases "map_of (projects cfg) n") (auto simp: map_of_eq_None_iff)
    then have cof: "clone_of cfg n = clone_argv url n"
      by (simp add: clone_of_def clone_argv_def)
    obtain r1 s1 where run1:
      "run_subprocess os (clone_argv url n) (Some (REPOS_ROOT cfg)) s = (r1, s1)"
      by (cases "run_subprocess os (clone_argv url n) (Some (REPOS_ROOT cfg)) s")
    from run_subprocess_traced [OF run1] obtain p where
      p: "traced os s s1 [p]" "follows os [p] r1" "p_args p = clone_argv url n"
         "p_cwd p = Some (REPOS_ROOT cfg)"
         "\<forall>cp. r1 = Inr cp \<longrightarrow> (\<exists>ws. p_child p = Exited 0 ws)"
      by blast
    show ?thesis
    proof (cases r1)
      case (Inl e)
      with Cons.prems False url run1 have "r = Inl e" "s' = s1" by auto
      with p False cof show ?thesis
        by (intro exI [of _ "[p]"]) auto
    next
      case (Inr cp)
      with Cons.prems False url run1 have rest: "clone_missing os cfg rest s1 = (r, s')"
        by auto
      from Inr p(5) obtain ws where "p_child p = Exited 0 ws" by blast
      with traced_single [OF p(1)] p(3,4)
      have "spawn os [''git'', ''clone'', url, n] (Some (REPOS_ROOT cfg)) (os_environ s) (world s)
              = (Exited 0 ws, world s1)"
        by (simp add: clone_argv_def prod_eq_iff)
      with cl nN have ex1: "\<forall>m\<in>N. ?ex m s1 = (?ex m s \<or> ?pj m = ?pj n)"
        by blast
      have same: "filter (\<lambda>n. \<not> ?ex n s1) rest = filter (\<lambda>n. \<not> ?ex n s) rest"
      proof (rule filter_cong [OF refl])
        fix m assume m: "m \<in> set rest"
        then have "?pj m \<in> ?pj ` set rest" by (rule imageI)
        with nrest have "?pj m \<noteq> ?pj n" by metis
        with ex1 m restN show "(\<not> ?ex m s1) = (\<not> ?ex m s)" by auto
      qed
      from Cons.IH [OF restN drest rest] obtain ps where
        ps: "traced os s1 s' ps"
            "map p_args ps = take (length ps)
               (map (clone_of cfg) (filter (\<lambda>n. \<not> ?ex n s1) rest))"
            "r = Inr () \<longrightarrow>
               map p_args ps = map (clone_of cfg) (filter (\<lambda>n. \<not> ?ex n s1) rest)
               \<and> (\<forall>m\<in>N. ?ex m s' = (?ex m s1 \<or> ?pj m \<in> ?pj ` set rest))"
        by blast
      have tr: "traced os s s' (p # ps)"
        using traced_append [OF p(1) ps(1)] by simp
      from ps(2) p(3) False cof same
      have ar: "map p_args (p # ps) = take (length (p # ps))
               (map (clone_of cfg) (filter (\<lambda>n. \<not> ?ex n s) (n # rest)))"
        by simp
      have fin: "r = Inr () \<longrightarrow>
               map p_args (p # ps) = map (clone_of cfg) (filter (\<lambda>n. \<not> ?ex n s) (n # rest))
               \<and> (\<forall>m\<in>N. ?ex m s' = (?ex m s \<or> ?pj m \<in> ?pj ` set (n # rest)))"
        using ps(3) p(3) False cof same ex1 by auto
      from tr ar fin show ?thesis
        by (intro exI [of _ "p # ps"]) blast
    qed
  qed
qed

text \<open>
  \<^verbatim>\<open>setup_repos\<close> either stops at \<^verbatim>\<open>os.makedirs\<close> (an error other than \<^verbatim>\<open>EEXIST\<close>) or
  runs the loop from the world \<^verbatim>\<open>os.makedirs\<close> left.
\<close>

lemma setup_repos_split:
  assumes run: "setup_repos os cfg s = (r, s1)"
  shows "(\<exists>errno. fst (makedirs os (REPOS_ROOT cfg) (world s)) = Some errno \<and> errno \<noteq> EEXIST
            \<and> r = Inl (OSError errno)
            \<and> s1 = s\<lparr>world := snd (makedirs os (REPOS_ROOT cfg) (world s))\<rparr>)
       \<or> clone_missing os cfg (map fst (projects cfg))
            (s\<lparr>world := snd (makedirs os (REPOS_ROOT cfg) (world s))\<rparr>) = (r, s1)"
  using run
  by (cases "makedirs os (REPOS_ROOT cfg) (world s)")
     (auto simp: setup_repos_def Let_def split: option.splits if_splits)

lemma setup_repos_history:
  assumes run: "setup_repos os cfg s = (r, s1)"
  shows "spawned s1 = spawned s @ new_procs s s1
       \<and> os_environ s1 = os_environ s
       \<and> list_all (\<lambda>p. p_cwd p = Some (REPOS_ROOT cfg) \<and> p_env p = os_environ s) (new_procs s s1)
       \<and> genuine os (snd (makedirs os (REPOS_ROOT cfg) (world s))) (new_procs s s1)
       \<and> world s1 = replay os (snd (makedirs os (REPOS_ROOT cfg) (world s))) (new_procs s s1)
       \<and> list_all (succeeded os) (butlast (new_procs s s1))
       \<and> (\<forall>i<length (new_procs s s1). \<exists>n\<in>set (map fst (projects cfg)).
             p_args (new_procs s s1 ! i) = clone_of cfg n
             \<and> \<not> path_exists os (path_join (REPOS_ROOT cfg) n)
                   (replay os (snd (makedirs os (REPOS_ROOT cfg) (world s)))
                      (take i (new_procs s s1))))
       \<and> (case r of
            Inr u \<Rightarrow> list_all (succeeded os) (new_procs s s1)
          | Inl e \<Rightarrow>
              if new_procs s s1 = []
              then \<exists>errno. fst (makedirs os (REPOS_ROOT cfg) (world s)) = Some errno
                     \<and> errno \<noteq> EEXIST \<and> e = OSError errno
              else raised os (last (new_procs s s1)) = Some e)"
proof -
  let ?w = "snd (makedirs os (REPOS_ROOT cfg) (world s))"
  let ?s0 = "s\<lparr>world := ?w\<rparr>"
  from setup_repos_split [OF run] show ?thesis
  proof (elim disjE exE conjE)
    fix errno
    assume "fst (makedirs os (REPOS_ROOT cfg) (world s)) = Some errno" "errno \<noteq> EEXIST"
      "r = Inl (OSError errno)" "s1 = ?s0"
    then show ?thesis
      by (simp add: new_procs_def)
  next
    assume loop: "clone_missing os cfg (map fst (projects cfg)) ?s0 = (r, s1)"
    from clone_missing_history [OF subset_refl loop] obtain ps where
      ps: "traced os ?s0 s1 ps" "follows os ps r"
          "list_all (\<lambda>p. p_cwd p = Some (REPOS_ROOT cfg)) ps"
          "\<forall>i<length ps. \<exists>n\<in>set (map fst (projects cfg)).
                 p_args (ps ! i) = clone_of cfg n
                 \<and> \<not> path_exists os (path_join (REPOS_ROOT cfg) n)
                       (replay os (world ?s0) (take i ps))"
      by blast
    from ps(1) have new: "new_procs s s1 = ps"
      by (simp add: traced_def new_procs_def)
    from ps(1) have a: "spawned s1 = spawned s @ ps" "os_environ s1 = os_environ s"
      "list_all (\<lambda>p. p_env p = os_environ s) ps" "genuine os ?w ps" "world s1 = replay os ?w ps"
      by (simp_all add: traced_def)
    from a(3) ps(3)
    have b: "list_all (\<lambda>p. p_cwd p = Some (REPOS_ROOT cfg) \<and> p_env p = os_environ s) ps"
      by (simp add: list_all_iff)
    from ps(2) have c: "list_all (succeeded os) (butlast ps)"
      by (cases r) (auto simp: follows_def list_all_iff dest: in_set_butlastD)
    from ps(2) have d: "(case r of
            Inr u \<Rightarrow> list_all (succeeded os) ps
          | Inl e \<Rightarrow>
              if ps = []
              then \<exists>errno. fst (makedirs os (REPOS_ROOT cfg) (world s)) = Some errno
                     \<and> errno \<noteq> EEXIST \<and> e = OSError errno
              else raised os (last ps) = Some e)"
      by (cases r) (auto simp: follows_def)
    from ps(4) have e: "\<forall>i<length ps. \<exists>n\<in>set (map fst (projects cfg)).
                 p_args (ps ! i) = clone_of cfg n
                 \<and> \<not> path_exists os (path_join (REPOS_ROOT cfg) n) (replay os ?w (take i ps))"
      by simp
    from a(1,2,4,5) b c d e show ?thesis
      unfolding new by blast
  qed
qed

lemma setup_repos_effect:
  assumes cc: "clone_creates os cfg"
    and dist: "distinct (map (path_join (REPOS_ROOT cfg)) (map fst (projects cfg)))"
    and run: "setup_repos os cfg s = (r, s1)"
  shows "map p_args (new_procs s s1)
           = take (length (new_procs s s1)) (missing_clones os cfg (world s))
       \<and> (r = Inr () \<longrightarrow>
             map p_args (new_procs s s1) = missing_clones os cfg (world s)
             \<and> (\<forall>m\<in>set (map fst (projects cfg)).
                   path_exists os (path_join (REPOS_ROOT cfg) m) (world s1)))"
proof -
  let ?N = "set (map fst (projects cfg))"
  let ?pj = "path_join (REPOS_ROOT cfg)"
  let ?w = "snd (makedirs os (REPOS_ROOT cfg) (world s))"
  let ?s0 = "s\<lparr>world := ?w\<rparr>"
  have mk: "makedirs os (REPOS_ROOT cfg) (world s)
              = (fst (makedirs os (REPOS_ROOT cfg) (world s)), ?w)"
    by simp
  from cc mk have keep: "\<forall>m\<in>?N. path_exists os (?pj m) ?w = path_exists os (?pj m) (world s)"
    unfolding clone_creates_def by blast
  then have miss: "missing_clones os cfg (world ?s0) = missing_clones os cfg (world s)"
    unfolding missing_clones_def by (intro arg_cong [of _ _ "map (clone_of cfg)"] filter_cong) auto
  from setup_repos_split [OF run] show ?thesis
  proof (elim disjE exE conjE)
    fix errno
    assume "r = Inl (OSError errno)" "s1 = ?s0"
    then show ?thesis
      by (simp add: new_procs_def)
  next
    assume loop: "clone_missing os cfg (map fst (projects cfg)) ?s0 = (r, s1)"
    from cc have cl: "\<forall>n\<in>?N. \<forall>url env w ws w'.
        spawn os [''git'', ''clone'', url, n] (Some (REPOS_ROOT cfg)) env w = (Exited 0 ws, w') \<longrightarrow>
        (\<forall>m\<in>?N. path_exists os (?pj m) w'
             = (path_exists os (?pj m) w \<or> ?pj m = ?pj n))"
      unfolding clone_creates_def by blast
    from clone_missing_traced [OF cl refl subset_refl dist loop] obtain ps where
      ps: "traced os ?s0 s1 ps"
          "map p_args ps = take (length ps) (missing_clones os cfg (world ?s0))"
          "r = Inr () \<longrightarrow>
             map p_args ps = missing_clones os cfg (world ?s0)
             \<and> (\<forall>m\<in>?N. path_exists os (?pj m) (world s1)
                   = (path_exists os (?pj m) (world ?s0) \<or> ?pj m \<in> ?pj ` ?N))"
      unfolding missing_clones_def by blast
    from ps(1) have new: "new_procs s s1 = ps"
      by (simp add: traced_def new_procs_def)
    from ps(3) have "r = Inr () \<longrightarrow>
             map p_args ps = missing_clones os cfg (world s)
             \<and> (\<forall>m\<in>?N. path_exists os (?pj m) (world s1))"
      unfolding miss by blast
    with ps(2) show ?thesis
      unfolding new miss by blast
  qed
qed

lemma setup_repos_again:
  assumes cc: "clone_creates os cfg"
    and all: "\<forall>m\<in>set (map fst (projects cfg)).
                path_exists os (path_join (REPOS_ROOT cfg) m) (world s)"
    and run: "setup_repos os cfg s = (r, s')"
  shows "new_procs s s' = []"
proof -
  obtain exc w where mk: "makedirs os (REPOS_ROOT cfg) (world s) = (exc, w)"
    by (cases "makedirs os (REPOS_ROOT cfg) (world s)")
  let ?s0 = "s\<lparr>world := w\<rparr>"
  from cc mk all have "\<forall>m\<in>set (map fst (projects cfg)).
                path_exists os (path_join (REPOS_ROOT cfg) m) (world ?s0)"
    unfolding clone_creates_def by simp
  from clone_missing_all_exist [OF this]
  have "clone_missing os cfg (map fst (projects cfg)) ?s0 = (Inr (), ?s0)" .
  with run mk have "s' = ?s0"
    by (cases exc) (auto simp: setup_repos_def Let_def split: if_splits)
  then show ?thesis
    by (simp add: new_procs_def)
qed

lemmas setup_defs =
  setup_repos_def clone_argv_def run_subprocess_unfold child_error_def child_text_def
  decoded_def raised_def succeeded_def
  path_join_def sep_def new_procs_def Let_def nl_def gone_cfg_def bare_cfg_def

text \<open>
  C8, as stated, fails: a clone that fails ends \<^verbatim>\<open>setup_repos\<close> with its exception. In
  the sample world, with a first project that cannot be cloned, no clone is issued for
  the second project although its directory is absent before and after the run, and a
  second run issues a clone again.
\<close>

theorem setup_repos_stops_at_failed_clone:
  "fst (setup_repos sample_os gone_cfg fresh)
     = Inl (CalledProcessError 128
              [''git'', ''clone'', ''https://example.org/gone.git'', ''old'']
              (Some (''fatal: repository not found'' @ nl)) None)
   \<and> map p_args (new_procs fresh (snd (setup_repos sample_os gone_cfg fresh)))
     = [[''git'', ''clone'', ''https://example.org/gone.git'', ''old'']]
   \<and> \<not> path_exists sample_os (path_join (REPOS_ROOT gone_cfg) ''app'') (world fresh)
   \<and> \<not> path_exists sample_os (path_join (REPOS_ROOT gone_cfg) ''app'')
         (world (snd (setup_repos sample_os gone_cfg fresh)))
   \<and> map p_args (new_procs (snd (setup_repos sample_os gone_cfg fresh))
        (snd (setup_repos sample_os gone_cfg (snd (setup_repos sample_os gone_cfg fresh)))))
     = [[''git'', ''clone'', ''https://example.org/gone.git'', ''old'']]"
  by (simp add: sample_defs setup_defs)

text \<open>
  C8, amended. For every run of \<^verbatim>\<open>setup_repos\<close>: the commands it issues are clones, all
  in the repository root, each what the operating system answers in the world the one
  before left, starting from the world \<^verbatim>\<open>os.makedirs\<close> left; each is the clone of a
  configured project whose directory did not exist when the clone was started, so no
  clone is issued for a project whose directory exists. Every clone but the last
  succeeded: a clone that raises (\<^verbatim>\<open>CalledProcessError\<close> for a non-zero exit status) is
  the last command issued, its exception is the result of \<^verbatim>\<open>setup_repos\<close>, and no clone
  is issued for the projects after it. The only other failure is that of
  \<^verbatim>\<open>os.makedirs\<close> with an error other than \<^verbatim>\<open>EEXIST\<close>, before any clone.

  Provided, in addition, that a successful \<^verbatim>\<open>git clone\<close> in the repository root creates
  the directory of its project and changes the existence of no other project directory,
  that \<^verbatim>\<open>os.makedirs\<close> of the repository root changes the existence of no project
  directory, and that the project directories are distinct paths: the clones issued
  are an initial part of the list of clones for the projects whose directory was absent
  before the run, in the order of the configuration; when \<^verbatim>\<open>setup_repos\<close> returns
  normally they are that whole list, and running \<^verbatim>\<open>setup_repos\<close> again then issues no
  clone.
\<close>

theorem setup_repos_clones_missing:
  assumes "setup_repos os cfg s = (r, s1)"
  shows "spawned s1 = spawned s @ new_procs s s1
       \<and> list_all (\<lambda>p. p_cwd p = Some (REPOS_ROOT cfg) \<and> p_env p = os_environ s) (new_procs s s1)
       \<and> genuine os (snd (makedirs os (REPOS_ROOT cfg) (world s))) (new_procs s s1)
       \<and> world s1 = replay os (snd (makedirs os (REPOS_ROOT cfg) (world s))) (new_procs s s1)
       \<and> (\<forall>i<length (new_procs s s1). \<exists>n\<in>set (map fst (projects cfg)).
             p_args (new_procs s s1 ! i) = clone_of cfg n
             \<and> \<not> path_exists os (path_join (REPOS_ROOT cfg) n)
                   (replay os (snd (makedirs os (REPOS_ROOT cfg) (world s)))
                      (take i (new_procs s s1))))
       \<and> list_all (succeeded os) (butlast (new_procs s s1))
       \<and> (case r of
            Inr u \<Rightarrow> list_all (succeeded os) (new_procs s s1)
          | Inl e \<Rightarrow>
              if new_procs s s1 = []
              then \<exists>errno. fst (makedirs os (REPOS_ROOT cfg) (world s)) = Some errno
                     \<and> errno \<noteq> EEXIST \<and> e = OSError errno
              else raised os (last (new_procs s s1)) = Some e)
       \<and> (clone_creates os cfg
          \<and> distinct (map (path_join (REPOS_ROOT cfg)) (map fst (projects cfg)))
          \<longrightarrow> map p_args (new_procs s s1)
                 = take (length (new_procs s s1)) (missing_clones os cfg (world s))
              \<and> (r = Inr () \<longrightarrow>
                   map p_args (new_procs s s1) = missing_clones os cfg (world s)
                   \<and> (\<forall>r2 s2. setup_repos os cfg s1 = (r2, s2) \<longrightarrow> new_procs s1 s2 = [])))"
proof -
  note h = setup_repos_history [OF assms]
  have "map p_args (new_procs s s1)
                 = take (length (new_procs s s1)) (missing_clones os cfg (world s))
              \<and> (r = Inr () \<longrightarrow>
                   map p_args (new_procs s s1) = missing_clones os cfg (world s)
                   \<and> (\<forall>r2 s2. setup_repos os cfg s1 = (r2, s2) \<longrightarrow> new_procs s1 s2 = []))"
    if cc: "clone_creates os cfg"
      and dist: "distinct (map (path_join (REPOS_ROOT cfg)) (map fst (projects cfg)))"
  proof -
    from setup_repos_effect [OF cc dist assms] have
      b: "map p_args (new_procs s s1)
              = take (length (new_procs s s1)) (missing_clones os cfg (world s))"
      and c: "r = Inr () \<longrightarrow>
             map p_args (new_procs s s1) = missing_clones os cfg (world s)
             \<and> (\<forall>m\<in>set (map fst (projects cfg)).
                   path_exists os (path_join (REPOS_ROOT cfg) m) (world s1))"
      by blast+
    have "r = Inr () \<longrightarrow>
             map p_args (new_procs s s1) = missing_clones os cfg (world s)
             \<and> (\<forall>r2 s2. setup_repos os cfg s1 = (r2, s2) \<longrightarrow> new_procs s1 s2 = [])"
    proof (intro impI conjI allI)
      assume "r = Inr ()"
      with c show "map p_args (new_procs s s1) = missing_clones os cfg (world s)" by blast
    next
      fix r2 s2
      assume "r = Inr ()" and again: "setup_repos os cfg s1 = (r2, s2)"
      with c have "\<forall>m\<in>set (map fst (projects cfg)).
                   path_exists os (path_join (REPOS_ROOT cfg) m) (world s1)"
        by blast
      from setup_repos_again [OF cc this again] show "new_procs s1 s2 = []" .
    qed
    with b show ?thesis by blast
  qed
  with h show ?thesis by blast
qed

lemma sample_clone_creates: "clone_creates sample_os sample_cfg"
  by (auto simp: clone_creates_def sample_defs path_join_def sep_def
      split: if_splits)

theorem setup_repos_clones_missing_witness:
  "fst (setup_repos sample_os sample_cfg fresh) = Inr ()
   \<and> map p_args (new_procs fresh (snd (setup_repos sample_os sample_cfg fresh)))
     = [[''git'', ''clone'', ''https://example.org/app.git'', ''app''],
        [''git'', ''clone'', ''https://example.org/site.git'', ''site'']]
   \<and> map (succeeded sample_os) (new_procs fresh (snd (setup_repos sample_os sample_cfg fresh)))
     = [True, True]
   \<and> new_procs (snd (setup_repos sample_os sample_cfg fresh))
        (snd (setup_repos sample_os sample_cfg (snd (setup_repos sample_os sample_cfg fresh))))
     = []
   \<and> raised sample_os (last (new_procs fresh (snd (setup_repos sample_os gone_cfg fresh))))
     = Some (CalledProcessError 128
              [''git'', ''clone'', ''https://example.org/gone.git'', ''old'']
              (Some (''fatal: repository not found'' @ nl)) None)"
proof -
  let ?run = "setup_repos sample_os sample_cfg fresh"
  let ?again = "setup_repos sample_os sample_cfg (snd ?run)"
  let ?gone = "setup_repos sample_os gone_cfg fresh"
  have d: "distinct (map (path_join (REPOS_ROOT sample_cfg)) (map fst (projects sample_cfg)))"
    by (simp add: sample_cfg_def path_join_def sep_def)
  have r: "fst ?run = Inr ()"
    by (simp add: sample_defs setup_defs)
  have ok: "map (succeeded sample_os) (new_procs fresh (snd ?run)) = [True, True]"
    by (simp add: sample_defs setup_defs)
  have m: "missing_clones sample_os sample_cfg (world fresh)
             = [[''git'', ''clone'', ''https://example.org/app.git'', ''app''],
                [''git'', ''clone'', ''https://example.org/site.git'', ''site'']]"
    by (simp add: missing_clones_def clone_of_def sample_defs)
  have "?run = (fst ?run, snd ?run)" by simp
  from setup_repos_clones_missing [OF this] sample_clone_creates d r
  have "map p_args (new_procs fresh (snd ?run)) = missing_clones sample_os sample_cfg (world fresh)"
    and "\<forall>r2 s2. ?again = (r2, s2) \<longrightarrow> new_procs (snd ?run) s2 = []"
    by blast+
  moreover have "?again = (fst ?again, snd ?again)" by simp
  ultimately have one: "map p_args (new_procs fresh (snd ?run))
          = [[''git'', ''clone'', ''https://example.org/app.git'', ''app''],
             [''git'', ''clone'', ''https://example.org/site.git'', ''site'']]"
    and two: "new_procs (snd ?run) (snd ?again) = []"
    unfolding m by blast+
  have g: "fst ?gone = Inl (CalledProcessError 128
              [''git'', ''clone'', ''https://example.org/gone.git'', ''old'']
              (Some (''fatal: repository not found'' @ nl)) None)"
    and gn: "new_procs fresh (snd ?gone) \<noteq> []"
    by (simp_all add: sample_defs setup_defs)
  have "?gone = (fst ?gone, snd ?gone)" by simp
  from setup_repos_clones_missing [OF this] g gn
  have three: "raised sample_os (last (new_procs fresh (snd ?gone)))
     = Some (CalledProcessError 128
              [''git'', ''clone'', ''https://example.org/gone.git'', ''old'']
              (Some (''fatal: repository not found'' @ nl)) None)"
    by simp
  from r ok one two three show ?thesis
    by (intro conjI)
qed

subsection \<open>Project roots\<close>

text \<open>
  The chat commands pass the project name through \<^verbatim>\<open>str.lower\<close>: two spellings that
  differ in the case of letters only run the same flow.
\<close>

lemma cmd_fastlane_env_case_insensitive:
  "str_lower os a = str_lower os b \<Longrightarrow>
     cmd_fastlane_env os cfg msg a branch_name s = cmd_fastlane_env os cfg msg b branch_name s"
  by (simp add: cmd_fastlane_env_def)

lemma cmd_fastlane_case_insensitive:
  "str_lower os a = str_lower os b \<Longrightarrow>
     cmd_fastlane os cfg msg a environment branch_name s
       = cmd_fastlane os cfg msg b environment branch_name s"
  by (simp add: cmd_fastlane_def)

text \<open>
  \<^verbatim>\<open>get_project_root\<close> concatenates. That is the joined path when the configured root
  ends with a slash and the name does not start with one.
\<close>

lemma get_project_root_joined:
  assumes "REPOS_ROOT cfg \<noteq> []" and "last (REPOS_ROOT cfg) = sep"
    and "project_name = [] \<or> hd project_name \<noteq> sep"
  shows "get_project_root cfg project_name = path_join (REPOS_ROOT cfg) project_name"
  using assms by (auto simp: get_project_root_def path_join_def)

lemma str_lower_App: "str_lower sample_os ''App'' = ''app''"
  by code_simp

text \<open>
  C1 on the code. With a repository root configured without a final slash,
  \<^verbatim>\<open>/srv/repos\<close>, \<^verbatim>\<open>setup_repos\<close> clones the project \<^verbatim>\<open>app\<close> into the joined path
  \<^verbatim>\<open>/srv/repos/app\<close>, and \<^verbatim>\<open>get_project_root\<close> returns \<^verbatim>\<open>/srv/reposapp\<close>, a directory
  that does not exist: the inspect command for \<^verbatim>\<open>App\<close> cannot start \<^verbatim>\<open>git\<close> there.
\<close>

theorem get_project_root_misses_separator:
  "get_project_root bare_cfg ''app'' = ''/srv/reposapp''
   \<and> path_join (REPOS_ROOT bare_cfg) ''app'' = ''/srv/repos/app''
   \<and> fst (setup_repos sample_os bare_cfg fresh) = Inr ()
   \<and> map p_cwd (spawned (snd (setup_repos sample_os bare_cfg fresh)))
     = [Some ''/srv/repos'', Some ''/srv/repos'']
   \<and> path_exists sample_os ''/srv/repos/app'' (world (snd (setup_repos sample_os bare_cfg fresh)))
   \<and> \<not> path_exists sample_os ''/srv/reposapp''
         (world (snd (setup_repos sample_os bare_cfg fresh)))
   \<and> str_lower sample_os ''App'' = ''app''
   \<and> fst (cmd_fastlane_env sample_os bare_cfg sample_msg ''App'' ''main''
            (snd (setup_repos sample_os bare_cfg fresh)))
     = Inl (OSError ENOENT)
   \<and> map p_cwd (new_procs (snd (setup_repos sample_os bare_cfg fresh))
        (snd (cmd_fastlane_env sample_os bare_cfg sample_msg ''App'' ''main''
            (snd (setup_repos sample_os bare_cfg fresh)))))
     = [Some ''/srv/reposapp'']"
  unfolding cmd_fastlane_env_def str_lower_App
  by (simp add: sample_defs setup_repos_def clone_argv_def bare_cfg_def model_defs)

end
